theory Spec2Isabelle
  imports Main "HOL-Library.Word"
begin

section \<open>Calls that may not return\<close>

text \<open>
  A Go call either returns its results, or ends the process through \<open>log.Fatal\<close>
  (which logs and exits), or panics (nil dereference, index out of range).
  Log output itself is not modelled.
\<close>

datatype 'a outcome = Fatal string | Panic string | Returns 'a

fun and_then :: "'a outcome \<Rightarrow> ('a \<Rightarrow> 'b outcome) \<Rightarrow> 'b outcome" where
  "and_then (Fatal m) f = Fatal m"
| "and_then (Panic m) f = Panic m"
| "and_then (Returns x) f = f x"

type_synonym error = string

section \<open>String slices on a heap\<close>

text \<open>
  \<open>[]string\<close> values share their backing arrays, so the name-server lists live on an
  explicit heap: a slice is nil or refers to a backing array, and its elements are read
  through the heap. The code only ever uses whole arrays (\<open>make\<close>, \<open>RootServers[:]\<close>),
  so a slice covers all of its array.
\<close>

record heap =
  arrays :: "nat \<Rightarrow> string list"
  next_free :: nat

datatype slice = NilSlice | SliceOf nat

definition elems :: "heap \<Rightarrow> slice \<Rightarrow> string list" where
  "elems h s = (case s of NilSlice \<Rightarrow> [] | SliceOf a \<Rightarrow> arrays h a)"

definition len :: "heap \<Rightarrow> slice \<Rightarrow> nat" where
  "len h s = length (elems h s)"

text \<open>\<open>make([]string, n)\<close>: a new backing array of \<open>n\<close> empty strings.\<close>

definition make_slice :: "heap \<Rightarrow> nat \<Rightarrow> slice \<times> heap" where
  "make_slice h n =
     (SliceOf (next_free h),
      h\<lparr>arrays := (arrays h)(next_free h := replicate n []), next_free := Suc (next_free h)\<rparr>)"

text \<open>\<open>copy(dst, src)\<close>: copies \<open>min(len(dst), len(src))\<close> elements and returns that number.\<close>

definition copy :: "heap \<Rightarrow> slice \<Rightarrow> slice \<Rightarrow> nat \<times> heap" where
  "copy h dst src =
     (let k = min (len h dst) (len h src) in
      (k, case dst of
            NilSlice \<Rightarrow> h
          | SliceOf a \<Rightarrow> h\<lparr>arrays := (arrays h)(a := take k (elems h src) @ drop k (arrays h a))\<rparr>))"

text \<open>A slice returned by a function outside the modelled code is put on the heap as a new array.\<close>

definition alloc :: "heap \<Rightarrow> string list \<Rightarrow> slice \<times> heap" where
  "alloc h xs =
     (SliceOf (next_free h),
      h\<lparr>arrays := (arrays h)(next_free h := xs), next_free := Suc (next_free h)\<rparr>)"

text \<open>\<open>s[i]\<close> panics out of range.\<close>

definition index :: "heap \<Rightarrow> slice \<Rightarrow> nat \<Rightarrow> string outcome" where
  "index h s i = (if i < len h s then Returns (elems h s ! i) else Panic ''index out of range'')"

text \<open>
  \<open>rand.Intn(n)\<close>: \<open>rnd\<close> is the raw draw of the generator for this call; the result is
  in \<open>[0, n)\<close>, and \<open>Intn\<close> panics for \<open>n \<le> 0\<close>.
\<close>

definition Intn :: "nat \<Rightarrow> nat \<Rightarrow> nat outcome" where
  "Intn rnd n = (if n = 0 then Panic ''invalid argument to Intn'' else Returns (rnd mod n))"

section \<open>pkg/zdns/resolver.go\<close>

type_synonym IP = "8 word list"
type_synonym Duration = int
type_synonym transportMode = int
type_synonym IPVersionMode = int

text \<open>
  Declarations of the packages \<open>zdns\<close> and \<open>util\<close> that resolver.go uses and that other
  files of the package declare; they are parameters of the model: the transport-mode
  and IP-version-mode constants, the two validity checks, the address of the
  package-level array \<open>RootServers\<close> on the heap, \<open>util.GetDefaultResolvers()\<close>, and
  \<open>GetIPVersionMode\<close>.
\<close>

record pkg =
  UDPOrTCP :: transportMode
  UDPOnly :: transportMode
  TCPOnly :: transportMode
  IPv4OrIPv6 :: IPVersionMode
  transportMode_isValid :: "transportMode \<Rightarrow> bool \<times> string"
  IPVersionMode_IsValid :: "IPVersionMode \<Rightarrow> bool \<times> string"
  RootServers :: nat
  GetDefaultResolvers :: "string list"
  GetIPVersionMode :: "bool \<Rightarrow> bool \<Rightarrow> IPVersionMode"

text \<open>
  What the operating system answers during construction: \<open>net.Dial\<close> (the local address
  of the dialled connection, or an error), \<open>net.ListenUDP\<close> on a local address (an error
  or none), and \<open>GetDNSServers\<close> on a resolver file.
\<close>

record env =
  net_Dial :: "string \<Rightarrow> string \<Rightarrow> error + IP"
  net_ListenUDP :: "IP \<Rightarrow> error option"
  GetDNSServers :: "string \<Rightarrow> error + string list"

definition googleDNSResolverAddr :: string where
  "googleDNSResolverAddr = ''8.8.8.8:53''"

definition defaultCacheSize :: int where
  "defaultCacheSize = 10000"

definition defaultNameServerConfigFile :: string where
  "defaultNameServerConfigFile = ''/etc/resolv.conf''"

text \<open>\<open>new(Cache)\<close> followed by \<open>Init(size)\<close>; a \<open>*Cache\<close> is an optional such object.\<close>

datatype Cache = NewCache int

text \<open>\<open>blacklist.New()\<close>; a \<open>*SafeBlacklist\<close> is an optional such object.\<close>

datatype SafeBlacklist = NewBlacklist

record 'lc ResolverConfig =
  Cache :: "Cache option"
  CacheSize :: int
  LookupClient :: 'lc
  Blacklist :: "SafeBlacklist option"
  LocalAddrs :: "IP list"
  Retries :: int
  LogLevel :: nat
  TransportMode :: transportMode
  IPVersionMode :: IPVersionMode
  ShouldRecycleSockets :: bool
  IsIterative :: bool
  IterativeTimeout :: Duration
  Timeout :: Duration
  MaxDepth :: int
  ExternalNameServers :: slice
  DNSSecEnabled :: bool
  EdnsOptions :: "nat list"
  CheckingDisabledBit :: bool

definition isValid :: "pkg \<Rightarrow> 'lc ResolverConfig \<Rightarrow> bool \<times> string" where
  "isValid p rc =
     (let (ok, reason) = transportMode_isValid p (TransportMode rc) in
      if \<not> ok then (False, reason)
      else
        let (ok, reason) = IPVersionMode_IsValid p (IPVersionMode rc) in
        if \<not> ok then (False, reason)
        else if Cache rc \<noteq> None \<and> CacheSize rc \<noteq> 0
          then (False, ''cannot use both cache and cacheSize'')
        else (True, ''''))"

text \<open>\<open>NewResolverConfig\<close>, with \<open>LookupClient{}\<close> as \<open>lc\<close>; durations are in nanoseconds.\<close>

definition Second :: Duration where
  "Second = 1000000000"

definition NewResolverConfig :: "pkg \<Rightarrow> 'lc \<Rightarrow> 'lc ResolverConfig" where
  "NewResolverConfig p lc =
     \<lparr>Cache = Some (NewCache defaultCacheSize),
      CacheSize = 0,
      LookupClient = lc,
      Blacklist = Some NewBlacklist,
      LocalAddrs = [],
      Retries = 1,
      LogLevel = 3,
      TransportMode = UDPOrTCP p,
      IPVersionMode = IPv4OrIPv6 p,
      ShouldRecycleSockets = True,
      IsIterative = False,
      IterativeTimeout = 4 * Second,
      Timeout = 15 * Second,
      MaxDepth = 10,
      ExternalNameServers = NilSlice,
      DNSSecEnabled = False,
      EdnsOptions = [],
      CheckingDisabledBit = False\<rparr>"

text \<open>A \<open>dns.Client\<close> with its dialer, and the recycled \<open>dns.Conn\<close> with the address it listens on.\<close>

record Client =
  client_Net :: string
  client_Timeout :: Duration
  client_Dialer_Timeout :: Duration
  client_Dialer_LocalAddr :: IP

record Conn =
  conn_LocalAddr :: IP
  conn_closed :: bool

record 'lc Resolver =
  cache :: Cache
  lookupClient :: 'lc
  blacklist :: "SafeBlacklist option"
  udpClient :: "Client option"
  tcpClient :: "Client option"
  conn :: "Conn option"
  localAddr :: IP
  retries :: int
  logLevel :: nat
  transportMode :: transportMode
  ipVersionMode :: IPVersionMode
  shouldRecycleSockets :: bool
  iterativeTimeout :: Duration
  timeout :: Duration
  maxDepth :: int
  externalNameServers :: slice
  rootNameServers :: slice
  lookupAllNameServers :: bool
  dnsSecEnabled :: bool
  ednsOptions :: "nat list"
  checkingDisabledBit :: bool

subsection \<open>InitResolver\<close>

text \<open>Lines 150-179: the cache and the struct literal; fields not named there are zero.\<close>

definition init_fields :: "'lc ResolverConfig \<Rightarrow> 'lc Resolver" where
  "init_fields config =
     (let c = (if CacheSize config \<noteq> 0 then NewCache (CacheSize config)
               else case Cache config of
                      Some c' \<Rightarrow> c'
                    | None \<Rightarrow> NewCache defaultCacheSize)
      in \<lparr>cache = c,
          lookupClient = LookupClient config,
          blacklist = Blacklist config,
          udpClient = None,
          tcpClient = None,
          conn = None,
          localAddr = [],
          retries = Retries config,
          logLevel = LogLevel config,
          transportMode = TransportMode config,
          ipVersionMode = IPVersionMode config,
          shouldRecycleSockets = ShouldRecycleSockets config,
          iterativeTimeout = 0,
          timeout = Timeout config,
          maxDepth = 0,
          externalNameServers = NilSlice,
          rootNameServers = NilSlice,
          lookupAllNameServers = False,
          dnsSecEnabled = DNSSecEnabled config,
          ednsOptions = EdnsOptions config,
          checkingDisabledBit = CheckingDisabledBit config\<rparr>)"

text \<open>Lines 181-195: the local address. The test is on the Resolver's own field.\<close>

definition init_localAddr ::
  "env \<Rightarrow> nat \<Rightarrow> 'lc ResolverConfig \<Rightarrow> 'lc Resolver \<Rightarrow> (error + 'lc Resolver) outcome" where
  "init_localAddr e rnd config r =
     (if length (localAddr r) = 0 then
        (case net_Dial e ''udp'' googleDNSResolverAddr of
           Inl err \<Rightarrow> Returns (Inl (''unable to find default IP address to open socket: '' @ err))
         | Inr ip \<Rightarrow> Returns (Inr (r\<lparr>localAddr := ip\<rparr>)))
      else
        and_then (Intn rnd (length (LocalAddrs config)))
          (\<lambda>i. Returns (Inr (r\<lparr>localAddr := LocalAddrs config ! i\<rparr>))))"

text \<open>Lines 196-204: the persistent connection.\<close>

definition init_conn :: "env \<Rightarrow> 'lc Resolver \<Rightarrow> error + 'lc Resolver" where
  "init_conn e r =
     (if shouldRecycleSockets r then
        (case net_ListenUDP e (localAddr r) of
           Some err \<Rightarrow> Inl (''unable to create UDP connection: '' @ err)
         | None \<Rightarrow> Inr (r\<lparr>conn := Some \<lparr>conn_LocalAddr = localAddr r, conn_closed = False\<rparr>\<rparr>))
      else Inr r)"

text \<open>Lines 206-224: the UDP and TCP clients.\<close>

definition init_clients :: "pkg \<Rightarrow> 'lc ResolverConfig \<Rightarrow> 'lc Resolver \<Rightarrow> 'lc Resolver" where
  "init_clients p config r =
     (let usingUDP = (transportMode r = UDPOrTCP p \<or> transportMode r = UDPOnly p);
          r1 = (if usingUDP
                then r\<lparr>udpClient := Some \<lparr>client_Net = [], client_Timeout = timeout r,
                                          client_Dialer_Timeout = timeout r,
                                          client_Dialer_LocalAddr = localAddr r\<rparr>\<rparr>
                else r);
          usingTCP = (transportMode r1 = UDPOrTCP p \<or> transportMode r1 = TCPOnly p)
      in if usingTCP
         then r1\<lparr>tcpClient := Some \<lparr>client_Net = ''tcp'', client_Timeout = timeout r1,
                                    client_Dialer_Timeout = Timeout config,
                                    client_Dialer_LocalAddr = localAddr r1\<rparr>\<rparr>
         else r1)"

text \<open>Lines 226-246: the name-server lists.\<close>

definition init_nameServers ::
  "pkg \<Rightarrow> env \<Rightarrow> heap \<Rightarrow> 'lc ResolverConfig \<Rightarrow> 'lc Resolver \<Rightarrow> ('lc Resolver \<times> heap) outcome" where
  "init_nameServers p e h config r =
     (let (s, h1) = make_slice h (len h (ExternalNameServers config));
          r1 = r\<lparr>externalNameServers := s\<rparr>;
          (elemsCopied, h2) = copy h1 (externalNameServers r1) (ExternalNameServers config)
      in if elemsCopied \<noteq> len h2 (ExternalNameServers config)
         then Fatal ''failed to copy entire name servers list from config''
         else
           let r2 = r1\<lparr>iterativeTimeout := IterativeTimeout config, maxDepth := MaxDepth config\<rparr>;
               r3 = r2\<lparr>rootNameServers := SliceOf (RootServers p)\<rparr>
           in if externalNameServers r3 = NilSlice \<or> len h2 (externalNameServers r3) = 0
              then
                let ns = (case GetDNSServers e defaultNameServerConfigFile of
                            Inl err \<Rightarrow> GetDefaultResolvers p
                          | Inr ns' \<Rightarrow> ns');
                    (s', h3) = alloc h2 ns
                in Returns (r3\<lparr>externalNameServers := s'\<rparr>, h3)
              else Returns (r3, h2))"

definition InitResolver ::
  "pkg \<Rightarrow> env \<Rightarrow> nat \<Rightarrow> heap \<Rightarrow> 'lc ResolverConfig \<Rightarrow> ((error + 'lc Resolver) \<times> heap) outcome" where
  "InitResolver p e rnd h config =
     (let (valid, notValidReason) = isValid p config in
      if \<not> valid then Returns (Inl (''invalid resolver config: '' @ notValidReason), h)
      else
        and_then (init_localAddr e rnd config (init_fields config))
          (\<lambda>x. case x of
                 Inl err \<Rightarrow> Returns (Inl err, h)
               | Inr r \<Rightarrow>
                  (case init_conn e r of
                     Inl err \<Rightarrow> Returns (Inl err, h)
                   | Inr r' \<Rightarrow>
                       and_then (init_nameServers p e h config (init_clients p config r'))
                         (\<lambda>(r'', h'). Returns (Inr r'', h')))))"

subsection \<open>Lookups\<close>

text \<open>
  A \<open>Question\<close> and the four results of a lookup. \<open>Lookuper\<close> is an interface: its method
  \<open>DoSingleDstServerLookup\<close> is a parameter \<open>dl\<close> of the model, applied to the Resolver's
  \<open>lookupClient\<close>, the Resolver, the question, the destination server and the iterative
  flag. Each operation returns the Resolver and the heap as it leaves them.
\<close>

record Question =
  q_Name :: string
  q_Type :: "16 word"
  q_Class :: "16 word"

definition randomExternalNameServer ::
  "heap \<Rightarrow> 'lc Resolver \<Rightarrow> nat \<Rightarrow> (string \<times> 'lc Resolver \<times> heap) outcome" where
  "randomExternalNameServer h r rnd =
     (let l = len h (externalNameServers r) in
      if externalNameServers r = NilSlice \<or> l = 0
      then Fatal ''no external name servers specified''
      else and_then (Intn rnd l)
             (\<lambda>i. and_then (index h (externalNameServers r) i) (\<lambda>s. Returns (s, r, h))))"

definition randomRootNameServer ::
  "heap \<Rightarrow> 'lc Resolver \<Rightarrow> nat \<Rightarrow> (string \<times> 'lc Resolver \<times> heap) outcome" where
  "randomRootNameServer h r rnd =
     (let l = len h (rootNameServers r) in
      if rootNameServers r = NilSlice \<or> l = 0
      then Fatal ''no root name servers specified''
      else and_then (Intn rnd l)
             (\<lambda>i. and_then (index h (rootNameServers r) i) (\<lambda>s. Returns (s, r, h))))"

definition ExternalLookup ::
  "('lc \<Rightarrow> 'lc Resolver \<Rightarrow> Question \<Rightarrow> string \<Rightarrow> bool \<Rightarrow> 'res) \<Rightarrow> heap \<Rightarrow> 'lc Resolver \<Rightarrow>
     Question \<Rightarrow> string \<Rightarrow> nat \<Rightarrow> ('res \<times> 'lc Resolver \<times> heap) outcome" where
  "ExternalLookup dl h r q dstServer rnd =
     and_then (if dstServer = [] then randomExternalNameServer h r rnd
               else Returns (dstServer, r, h))
       (\<lambda>(dstServer', r', h'). Returns (dl (lookupClient r') r' q dstServer' False, r', h'))"

definition IterativeLookup ::
  "('lc \<Rightarrow> 'lc Resolver \<Rightarrow> Question \<Rightarrow> string \<Rightarrow> bool \<Rightarrow> 'res) \<Rightarrow> heap \<Rightarrow> 'lc Resolver \<Rightarrow>
     Question \<Rightarrow> nat \<Rightarrow> ('res \<times> 'lc Resolver \<times> heap) outcome" where
  "IterativeLookup dl h r q rnd =
     and_then (randomRootNameServer h r rnd)
       (\<lambda>(s, r', h'). Returns (dl (lookupClient r') r' q s True, r', h'))"

text \<open>
  \<open>randomNameServer\<close> of the earlier Resolver, which keeps one list \<open>nameServers\<close>
  (the argument here) for both kinds of lookup.
\<close>

definition randomNameServer :: "heap \<Rightarrow> slice \<Rightarrow> nat \<Rightarrow> string outcome" where
  "randomNameServer h nameServers rnd =
     (if nameServers = NilSlice \<or> len h nameServers = 0
      then Fatal ''No name servers specified''
      else
        let l = len h nameServers in
        if l = 0 then Fatal ''No name servers specified''
        else and_then (Intn rnd l) (index h nameServers))"

text \<open>\<open>Close\<close> closes the recycled connection when there is one.\<close>

definition Close :: "heap \<Rightarrow> 'lc Resolver \<Rightarrow> 'lc Resolver \<times> heap" where
  "Close h r =
     (case conn r of
        None \<Rightarrow> (r, h)
      | Some c \<Rightarrow> (r\<lparr>conn := Some (c\<lparr>conn_closed := True\<rparr>)\<rparr>, h))"


section \<open>modules/mxlookup/mx_lookup.go\<close>

subsection \<open>Results of package zdns\<close>

text \<open>
  Modelled from the spec: the \<open>Status\<close> type of package zdns, the terminal classification
  of a resolution attempt, with the ten classes the specification lists; the code names
  the first one \<open>StatusNoError\<close>.
\<close>

datatype Status =
    StatusNoError | StatusNXDomain | StatusServFail | StatusTimeout | StatusBlacklist
  | StatusIterTimeout | StatusMalformed | StatusNetworkError | StatusNoAnswer | StatusNotImpl

text \<open>
  Modelled from the spec: a step of a \<open>Trace\<close> (depth, queried server, queried name); a
  \<open>Trace\<close> is the ordered sequence of the steps.
\<close>

record TraceStep =
  step_Depth :: nat
  step_NameServer :: string
  step_Name :: string

type_synonym Trace = "TraceStep list"

text \<open>
  Modelled from the spec: answer records share name, class, TTL and type, and an MX-style
  record (\<open>PrefAnswer\<close>) adds a preference; \<open>ans_Answer\<close> is the record's data, for an MX
  record the exchange name. A \<open>SingleQueryResult\<close> holds the answer, additional and
  authority sections and the responding server.
\<close>

record Answer =
  ans_TTL :: "32 word"
  ans_Type :: string
  ans_Class :: string
  ans_Name :: string
  ans_Answer :: string

datatype answer_item = PrefAnswer Answer "16 word" | OtherAnswer Answer

record SingleQueryResult =
  Answers :: "answer_item list"
  Additional :: "answer_item list"
  Authorities :: "answer_item list"
  Resolver :: string

type_synonym lookup_result = "SingleQueryResult option \<times> Trace \<times> Status \<times> error option"

definition TypeMX :: "16 word" where
  "TypeMX = 15"

definition ClassINET :: "16 word" where
  "ClassINET = 1"

text \<open>
  \<open>r.DoTargetedLookup(name, nameServer, isIterative, lookupIPv4, lookupIPv6)\<close> is a method
  of the Resolver declared in another file. It is a parameter of the model: a function
  from the targeted calls issued so far and the arguments of this call to its four
  results, so that its answer may change from one call to the next. The calls issued
  are recorded in order.
\<close>

record IPResult =
  res_IPv4Addresses :: "string list"
  res_IPv6Addresses :: "string list"

type_synonym targeted_call = "string \<times> string \<times> bool \<times> bool \<times> bool"
type_synonym targeted_result = "IPResult option \<times> Trace \<times> Status \<times> error option"
type_synonym targeted = "targeted_call list \<Rightarrow> targeted_call \<Rightarrow> targeted_result"

subsection \<open>The module's types\<close>

record CachedAddresses =
  IPv4Addresses :: "string list"
  IPv6Addresses :: "string list"

text \<open>The two address fields of an \<open>MXRecord\<close> carry the prefix \<open>mx_\<close>.\<close>

record MXRecord =
  Name :: string
  Type :: string
  Class :: string
  Preference :: "16 word"
  mx_IPv4Addresses :: "string list"
  mx_IPv6Addresses :: "string list"
  TTL :: "32 word"

record MXResult =
  Servers :: "MXRecord list"

text \<open>
  Modelled from the spec: \<open>cachehash.CacheHash\<close>, the module's bounded name-to-result
  cache: a fixed maximum capacity, an insertion beyond capacity evicts the
  least-recently-used entry, and a write for an existing key overwrites it. The entries
  are kept most recently used first; a hit moves the entry to the front.
\<close>

record CacheHash =
  maxLen :: int
  entries :: "(string \<times> CachedAddresses) list"

text \<open>Modelled from the spec: \<open>CacheHash.Init\<close>, an empty cache of the given capacity.\<close>

definition CacheHash_Init :: "int \<Rightarrow> CacheHash" where
  "CacheHash_Init n = \<lparr>maxLen = n, entries = []\<rparr>"

text \<open>Modelled from the spec: \<open>CacheHash.Get\<close>, the value of a key when present, and the cache with that entry most recent.\<close>

definition CacheHash_Get :: "CacheHash \<Rightarrow> string \<Rightarrow> CachedAddresses option \<times> CacheHash" where
  "CacheHash_Get c k =
     (case map_of (entries c) k of
        None \<Rightarrow> (None, c)
      | Some v \<Rightarrow> (Some v, c\<lparr>entries := (k, v) # filter (\<lambda>kv. fst kv \<noteq> k) (entries c)\<rparr>))"

text \<open>Modelled from the spec: \<open>CacheHash.Upsert\<close>, overwriting the key's entry or inserting it, evicting the least recently used entry of a full cache.\<close>

definition CacheHash_Upsert :: "CacheHash \<Rightarrow> string \<Rightarrow> CachedAddresses \<Rightarrow> CacheHash" where
  "CacheHash_Upsert c k v =
     (if map_of (entries c) k \<noteq> None
      then c\<lparr>entries := (k, v) # filter (\<lambda>kv. fst kv \<noteq> k) (entries c)\<rparr>
      else c\<lparr>entries := (k, v) #
                (if maxLen c \<le> int (length (entries c)) then butlast (entries c)
                 else entries c)\<rparr>)"

text \<open>
  Modelled from the spec: \<open>CacheHash.Add\<close>, the write of the earlier cache interface; like
  \<open>Upsert\<close> it inserts the key or overwrites its entry.
\<close>

definition CacheHash_Add :: "CacheHash \<Rightarrow> string \<Rightarrow> CachedAddresses \<Rightarrow> CacheHash" where
  "CacheHash_Add c k v = CacheHash_Upsert c k v"

text \<open>
  \<open>MXLookup\<close> is the struct of the earlier module; \<open>MXLookupModule\<close> has the same fields
  followed by the embedded \<open>cli.BasicLookupModule\<close>, of whose fields the code reads
  \<open>IsIterative\<close>, here \<open>basic_IsIterative\<close>. The mutex \<open>CHmu\<close> has no sequential content.
\<close>

record BasicLookupModule =
  basic_IsIterative :: bool

record MXLookup =
  IPv4Lookup :: bool
  IPv6Lookup :: bool
  MXCacheSize :: int
  CacheHash :: "CacheHash option"

record MXLookupModule = MXLookup +
  BasicLookupModule :: BasicLookupModule

subsection \<open>Init and CLIInit\<close>

text \<open>The second fatal message is logged with the offending size appended.\<close>

definition Init :: "MXLookupModule \<Rightarrow> MXLookupModule outcome" where
  "Init mxMod =
     (if \<not> IPv4Lookup mxMod \<and> \<not> IPv6Lookup mxMod
      then Fatal ''At least one of ipv4-lookup or ipv6-lookup must be true''
      else if MXCacheSize mxMod \<le> 0
      then Fatal ''mxCacheSize must be greater than 0, got ''
      else Returns (mxMod\<lparr>CacheHash := Some (CacheHash_Init (MXCacheSize mxMod))\<rparr>))"

text \<open>
  \<open>BasicLookupModule.CLIInit(gc, rc)\<close> is declared in package cli; it is the parameter
  \<open>basic_CLIInit\<close>, from the embedded module to its error and the module it leaves.
\<close>

definition CLIInit ::
  "(BasicLookupModule \<Rightarrow> error option \<times> BasicLookupModule) \<Rightarrow> MXLookupModule \<Rightarrow>
     (error option \<times> MXLookupModule) outcome" where
  "CLIInit basic_CLIInit mxMod =
     (let mxMod1 = (if \<not> IPv4Lookup mxMod \<and> \<not> IPv6Lookup mxMod
                    then mxMod\<lparr>IPv4Lookup := True\<rparr> else mxMod)
      in and_then (Init mxMod1)
           (\<lambda>mxMod2.
              case basic_CLIInit (BasicLookupModule mxMod2) of
                (Some err, b) \<Rightarrow>
                  Returns (Some (''failed to initialize BasicLookupModule: '' @ err),
                           mxMod2\<lparr>BasicLookupModule := b\<rparr>)
              | (None, b) \<Rightarrow> Returns (None, mxMod2\<lparr>BasicLookupModule := b\<rparr>)))"

subsection \<open>lookupIPs and Lookup\<close>

definition lookupIPs ::
  "targeted \<Rightarrow> MXLookupModule \<Rightarrow> targeted_call list \<Rightarrow> string \<Rightarrow> string \<Rightarrow> IPVersionMode \<Rightarrow>
     ((CachedAddresses \<times> Trace) \<times> MXLookupModule \<times> targeted_call list) outcome" where
  "lookupIPs dt mxMod log name nameServer ipMode =
     (case CacheHash mxMod of
        None \<Rightarrow> Panic ''nil pointer dereference''
      | Some ch \<Rightarrow>
          let (res, ch1) = CacheHash_Get ch name in
          (case res of
            Some cached \<Rightarrow> Returns ((cached, []), mxMod\<lparr>CacheHash := Some ch1\<rparr>, log)
          | None \<Rightarrow>
              let retv = \<lparr>IPv4Addresses = [], IPv6Addresses = []\<rparr>;
                  call = (name, nameServer, basic_IsIterative (BasicLookupModule mxMod),
                          IPv4Lookup mxMod, IPv6Lookup mxMod);
                  (result, trace, status, err) = dt log call;
                  retv1 = (case result of
                             Some ips \<Rightarrow>
                               if status = StatusNoError
                               then retv\<lparr>IPv4Addresses := res_IPv4Addresses ips,
                                         IPv6Addresses := res_IPv6Addresses ips\<rparr>
                               else retv
                           | None \<Rightarrow> retv);
                  ch2 = CacheHash_Upsert ch1 name retv1
              in Returns ((retv1, trace), mxMod\<lparr>CacheHash := Some ch2\<rparr>, log @ [call])))"

text \<open>
  \<open>LookupIPs\<close> of the earlier module. Its receiver may be nil; the flags are arguments,
  and the package-level \<open>DoTargetedLookup(r, name, nameServer, lookupIpv4, lookupIpv6)\<close>
  is the parameter \<open>dt\<close>, as above without the iterative flag.
\<close>

type_synonym targeted_call0 = "string \<times> string \<times> bool \<times> bool"
type_synonym targeted0 = "targeted_call0 list \<Rightarrow> targeted_call0 \<Rightarrow> targeted_result"

definition LookupIPs ::
  "targeted0 \<Rightarrow> MXLookup option \<Rightarrow> targeted_call0 list \<Rightarrow> string \<Rightarrow> string \<Rightarrow> bool \<Rightarrow> bool \<Rightarrow>
     ((CachedAddresses \<times> Trace) \<times> MXLookup option \<times> targeted_call0 list) outcome" where
  "LookupIPs dt mxLookup log name nameServer lookupIpv4 lookupIpv6 =
     (case mxLookup of
        None \<Rightarrow> Fatal ''mxLookup is not initialized''
      | Some mx \<Rightarrow>
         (case CacheHash mx of
            None \<Rightarrow> Panic ''nil pointer dereference''
          | Some ch \<Rightarrow>
              let (res, ch1) = CacheHash_Get ch name in
              (case res of
                Some cached \<Rightarrow> Returns ((cached, []), Some (mx\<lparr>CacheHash := Some ch1\<rparr>), log)
              | None \<Rightarrow>
                  let retv = \<lparr>IPv4Addresses = [], IPv6Addresses = []\<rparr>;
                      call = (name, nameServer, lookupIpv4, lookupIpv6);
                      (result, trace, status, err) = dt log call;
                      retv1 = (case result of
                                 Some ips \<Rightarrow>
                                   if status = StatusNoError
                                   then retv\<lparr>IPv4Addresses := res_IPv4Addresses ips,
                                             IPv6Addresses := res_IPv6Addresses ips\<rparr>
                                   else retv
                               | None \<Rightarrow> retv);
                      ch2 = CacheHash_Add ch1 name retv1
                  in Returns ((retv1, trace), Some (mx\<lparr>CacheHash := Some ch2\<rparr>),
                              log @ [call]))))"

text \<open>\<open>strings.TrimSuffix\<close>.\<close>

definition TrimSuffix :: "string \<Rightarrow> string \<Rightarrow> string" where
  "TrimSuffix s suffix =
     (if length suffix \<le> length s \<and> drop (length s - length suffix) s = suffix
      then take (length s - length suffix) s else s)"

text \<open>
  The loop of \<open>Lookup\<close> over \<open>res.Answers\<close> (lines 124-134); its state is the records
  collected, the trace, the module and the targeted calls issued.
\<close>

fun lookup_answers ::
  "targeted \<Rightarrow> string \<Rightarrow> IPVersionMode \<Rightarrow> answer_item list \<Rightarrow>
     MXRecord list \<times> Trace \<times> MXLookupModule \<times> targeted_call list \<Rightarrow>
     (MXRecord list \<times> Trace \<times> MXLookupModule \<times> targeted_call list) outcome" where
  "lookup_answers dt nameServer ipMode [] st = Returns st"
| "lookup_answers dt nameServer ipMode (OtherAnswer a # rest) st =
     lookup_answers dt nameServer ipMode rest st"
| "lookup_answers dt nameServer ipMode (PrefAnswer a pref # rest) (servers, trace, mxMod, log) =
     (let lookupName = TrimSuffix (ans_Answer a) ''.'';
          rec = \<lparr>Name = lookupName, Type = ans_Type a, Class = ans_Class a, Preference = pref,
                 mx_IPv4Addresses = [], mx_IPv6Addresses = [], TTL = ans_TTL a\<rparr>
      in case lookupIPs dt mxMod log lookupName nameServer ipMode of
           Fatal m \<Rightarrow> Fatal m
         | Panic m \<Rightarrow> Panic m
         | Returns ((ips, secondTrace), mxMod1, log1) \<Rightarrow>
             lookup_answers dt nameServer ipMode rest
               (servers @ [rec\<lparr>mx_IPv4Addresses := IPv4Addresses ips,
                               mx_IPv6Addresses := IPv6Addresses ips\<rparr>],
                trace @ secondTrace, mxMod1, log1))"

text \<open>The primary MX query of \<open>Lookup\<close> (lines 115-119).\<close>

definition primary_query ::
  "('lc \<Rightarrow> 'lc Resolver \<Rightarrow> Question \<Rightarrow> string \<Rightarrow> bool \<Rightarrow> lookup_result) \<Rightarrow>
     heap \<Rightarrow> 'lc Resolver \<Rightarrow> MXLookupModule \<Rightarrow> string \<Rightarrow> string \<Rightarrow> nat \<Rightarrow>
     (lookup_result \<times> 'lc Resolver \<times> heap) outcome" where
  "primary_query dl h r mxMod lookupName nameServer rnd =
     (if basic_IsIterative (BasicLookupModule mxMod)
      then IterativeLookup dl h r
             \<lparr>q_Name = lookupName, q_Type = TypeMX, q_Class = ClassINET\<rparr> rnd
      else ExternalLookup dl h r
             \<lparr>q_Name = lookupName, q_Type = TypeMX, q_Class = ClassINET\<rparr> nameServer rnd)"

definition Lookup ::
  "pkg \<Rightarrow> ('lc \<Rightarrow> 'lc Resolver \<Rightarrow> Question \<Rightarrow> string \<Rightarrow> bool \<Rightarrow> lookup_result) \<Rightarrow> targeted \<Rightarrow>
     heap \<Rightarrow> 'lc Resolver \<Rightarrow> MXLookupModule \<Rightarrow> targeted_call list \<Rightarrow> string \<Rightarrow> string \<Rightarrow> nat \<Rightarrow>
     ((MXResult option \<times> Trace \<times> Status \<times> error option) \<times> MXLookupModule \<times> targeted_call list)
       outcome" where
  "Lookup p dl dt h r mxMod log lookupName nameServer rnd =
     (let ipMode = GetIPVersionMode p (IPv4Lookup mxMod) (IPv6Lookup mxMod)
      in and_then (primary_query dl h r mxMod lookupName nameServer rnd)
           (\<lambda>((res, trace, status, err), r', h').
              if status \<noteq> StatusNoError \<or> err \<noteq> None
              then Returns ((None, trace, status, err), mxMod, log)
              else
                case res of
                  None \<Rightarrow> Panic ''nil pointer dereference''
                | Some sqr \<Rightarrow>
                    and_then (lookup_answers dt nameServer ipMode (Answers sqr)
                                ([], trace, mxMod, log))
                      (\<lambda>(servers, trace1, mxMod1, log1).
                         Returns ((Some \<lparr>Servers = servers\<rparr>, trace1, StatusNoError, None),
                                  mxMod1, log1))))"

text \<open>
  The answers of a sequence of targeted calls issued one after the other, starting
  after the calls \<open>log\<close>.
\<close>

fun responses :: "targeted \<Rightarrow> targeted_call list \<Rightarrow> targeted_call list \<Rightarrow> targeted_result list" where
  "responses dt log [] = []"
| "responses dt log (c # cs) = dt log c # responses dt (log @ [c]) cs"

definition trace_of :: "targeted_result \<Rightarrow> Trace" where
  "trace_of res = (case res of (result, trace, status, err) \<Rightarrow> trace)"

definition failed :: "targeted_result \<Rightarrow> bool" where
  "failed res = (case res of (result, trace, status, err) \<Rightarrow> status \<noteq> StatusNoError \<or> result = None)"

definition exchange_names :: "answer_item list \<Rightarrow> string list" where
  "exchange_names answers =
     concat (map (\<lambda>ans. case ans of PrefAnswer a pref \<Rightarrow> [TrimSuffix (ans_Answer a) ''.'']
                                   | OtherAnswer a \<Rightarrow> []) answers)"

section \<open>Sample declarations and inputs\<close>

text \<open>
  Concrete values for the parameters, used where a statement is evaluated: the mode
  constants in declaration order, a heap holding the thirteen root servers at address 0
  and a caller's two name servers at address 1, and two operating systems, one whose
  dial succeeds from 10.0.0.1 and one without a route.
\<close>

definition sample_pkg :: pkg where
  "sample_pkg =
     \<lparr>UDPOrTCP = 0, UDPOnly = 1, TCPOnly = 2, IPv4OrIPv6 = 2,
      transportMode_isValid =
        (\<lambda>m. if 0 \<le> m \<and> m \<le> 2 then (True, []) else (False, ''invalid transport mode'')),
      IPVersionMode_IsValid =
        (\<lambda>m. if 0 \<le> m \<and> m \<le> 2 then (True, []) else (False, ''invalid ip version mode'')),
      RootServers = 0,
      GetDefaultResolvers = [''8.8.8.8:53'', ''8.8.4.4:53'', ''1.1.1.1:53'', ''1.0.0.1:53''],
      GetIPVersionMode = (\<lambda>v4 v6. if v4 \<and> v6 then 2 else if v6 then 1 else 0)\<rparr>"

definition sample_heap :: heap where
  "sample_heap =
     \<lparr>arrays = (\<lambda>a. [])
        (0 := [''198.41.0.4:53'', ''170.247.170.2:53'', ''192.33.4.12:53'', ''199.7.91.13:53'',
               ''192.203.230.10:53'', ''192.5.5.241:53'', ''192.112.36.4:53'',
               ''198.97.190.53:53'', ''192.36.148.17:53'', ''192.58.128.30:53'',
               ''193.0.14.129:53'', ''199.7.83.42:53'', ''202.12.27.33:53''],
         1 := [''192.0.2.53:53'', ''192.0.2.54:53'']),
      next_free = 2\<rparr>"

definition sample_env :: env where
  "sample_env =
     \<lparr>net_Dial = (\<lambda>network address. Inr [10, 0, 0, 1]),
      net_ListenUDP = (\<lambda>ip. None),
      GetDNSServers = (\<lambda>path. Inr [''192.0.2.1:53''])\<rparr>"

definition unreachable_env :: env where
  "unreachable_env =
     \<lparr>net_Dial = (\<lambda>network address. Inl ''network is unreachable''),
      net_ListenUDP = (\<lambda>ip. None),
      GetDNSServers = (\<lambda>path. Inr [''192.0.2.1:53''])\<rparr>"

text \<open>A Lookuper that reports the destination server and the iterative flag it was called with.\<close>

definition echo_lookup :: "unit \<Rightarrow> unit Resolver \<Rightarrow> Question \<Rightarrow> string \<Rightarrow> bool \<Rightarrow> string \<times> bool" where
  "echo_lookup lc r q dstServer isIterative = (dstServer, isIterative)"

text \<open>
  A caller's configuration naming the two servers at address 1, and the Resolver and heap
  that construction yields from it under \<open>sample_env\<close>.
\<close>

definition sample_config :: "unit ResolverConfig" where
  "sample_config = (NewResolverConfig sample_pkg ())\<lparr>ExternalNameServers := SliceOf 1\<rparr>"

definition sample_resolver :: "unit Resolver" where
  "sample_resolver =
     \<lparr>cache = NewCache 10000, lookupClient = (), blacklist = Some NewBlacklist,
      udpClient = Some \<lparr>client_Net = [], client_Timeout = 15000000000,
                          client_Dialer_Timeout = 15000000000,
                          client_Dialer_LocalAddr = [10, 0, 0, 1]\<rparr>,
      tcpClient = Some \<lparr>client_Net = ''tcp'', client_Timeout = 15000000000,
                          client_Dialer_Timeout = 15000000000,
                          client_Dialer_LocalAddr = [10, 0, 0, 1]\<rparr>,
      conn = Some \<lparr>conn_LocalAddr = [10, 0, 0, 1], conn_closed = False\<rparr>,
      localAddr = [10, 0, 0, 1], retries = 1, logLevel = 3,
      transportMode = 0, ipVersionMode = 2, shouldRecycleSockets = True,
      iterativeTimeout = 4000000000, timeout = 15000000000, maxDepth = 10,
      externalNameServers = SliceOf 2, rootNameServers = SliceOf 0,
      lookupAllNameServers = False, dnsSecEnabled = False, ednsOptions = [],
      checkingDisabledBit = False\<rparr>"

definition sample_heap_constructed :: heap where
  "sample_heap_constructed =
     sample_heap\<lparr>arrays := (arrays sample_heap)(2 := [''192.0.2.53:53'', ''192.0.2.54:53'']),
                  next_free := 3\<rparr>"

definition sample_question :: Question where
  "sample_question = \<lparr>q_Name = ''example.com'', q_Type = 15, q_Class = 1\<rparr>"

text \<open>
  For the MX module: the module as the command line leaves it with neither flag set,
  the initialiser of the embedded module that changes nothing, an initialised module
  with room for two names, a Lookuper that answers every MX question with two
  exchanges, a targeted lookup that always times out, and one that times out twice and
  then answers.
\<close>

definition flags_unset_module :: MXLookupModule where
  "flags_unset_module =
     \<lparr>IPv4Lookup = False, IPv6Lookup = False, MXCacheSize = 2, CacheHash = None,
      BasicLookupModule = \<lparr>basic_IsIterative = False\<rparr>\<rparr>"

definition plain_basic_CLIInit :: "BasicLookupModule \<Rightarrow> error option \<times> BasicLookupModule" where
  "plain_basic_CLIInit b = (None, b)"

definition ready_module :: MXLookupModule where
  "ready_module =
     \<lparr>IPv4Lookup = True, IPv6Lookup = False, MXCacheSize = 2,
      CacheHash = Some \<lparr>maxLen = 2, entries = []\<rparr>,
      BasicLookupModule = \<lparr>basic_IsIterative = False\<rparr>\<rparr>"

definition no_addresses :: CachedAddresses where
  "no_addresses = \<lparr>IPv4Addresses = [], IPv6Addresses = []\<rparr>"

definition mx_answer :: "string \<Rightarrow> string \<Rightarrow> 16 word \<Rightarrow> answer_item" where
  "mx_answer name exchange pref =
     PrefAnswer \<lparr>ans_TTL = 300, ans_Type = ''MX'', ans_Class = ''IN'', ans_Name = name,
                 ans_Answer = exchange\<rparr> pref"

definition mx_lookuper :: "unit \<Rightarrow> unit Resolver \<Rightarrow> Question \<Rightarrow> string \<Rightarrow> bool \<Rightarrow> lookup_result" where
  "mx_lookuper lc r q dstServer isIterative =
     (Some \<lparr>Answers = [mx_answer (q_Name q) ''mx1.example.com.'' 10,
                         mx_answer (q_Name q) ''mx2.example.com.'' 20],
            Additional = [], Authorities = [], Resolver = dstServer\<rparr>,
      [\<lparr>step_Depth = 1, step_NameServer = dstServer, step_Name = q_Name q\<rparr>],
      StatusNoError, None)"

definition servfail_lookuper :: "unit \<Rightarrow> unit Resolver \<Rightarrow> Question \<Rightarrow> string \<Rightarrow> bool \<Rightarrow> lookup_result" where
  "servfail_lookuper lc r q dstServer isIterative =
     (None, [\<lparr>step_Depth = 1, step_NameServer = dstServer, step_Name = q_Name q\<rparr>],
      StatusServFail, None)"

definition timeout_dt :: targeted where
  "timeout_dt log call =
     (None, [\<lparr>step_Depth = 1, step_NameServer = fst (snd call), step_Name = fst call\<rparr>],
      StatusTimeout, Some ''timeout'')"

definition answering_dt :: targeted where
  "answering_dt log call =
     (Some \<lparr>res_IPv4Addresses = [''192.0.2.25''], res_IPv6Addresses = []\<rparr>,
      [\<lparr>step_Depth = 1, step_NameServer = fst (snd call), step_Name = fst call\<rparr>],
      StatusNoError, None)"

definition flaky_dt :: targeted where
  "flaky_dt log call = (if length log < 2 then timeout_dt log call else answering_dt log call)"

text \<open>An initialised module whose cache already holds the addresses of the first exchange.\<close>

definition warm_module :: MXLookupModule where
  "warm_module =
     ready_module\<lparr>CacheHash := Some \<lparr>maxLen = 2, entries =
        [(''mx1.example.com'', \<lparr>IPv4Addresses = [''192.0.2.10''], IPv6Addresses = []\<rparr>)]\<rparr>\<rparr>"

text \<open>An initialised module with room for a single name.\<close>

definition tiny_module :: MXLookupModule where
  "tiny_module = ready_module\<lparr>MXCacheSize := 1, CacheHash := Some \<lparr>maxLen = 1, entries = []\<rparr>\<rparr>"

text \<open>The earlier module, initialised with room for two names, and a targeted lookup of its kind that times out.\<close>

definition ready_lookup :: MXLookup where
  "ready_lookup =
     \<lparr>IPv4Lookup = True, IPv6Lookup = False, MXCacheSize = 2,
      CacheHash = Some \<lparr>maxLen = 2, entries = []\<rparr>\<rparr>"

definition timeout_dt0 :: targeted0 where
  "timeout_dt0 log call =
     (None, [\<lparr>step_Depth = 1, step_NameServer = fst (snd call), step_Name = fst call\<rparr>],
      StatusTimeout, Some ''timeout'')"

section \<open>Properties\<close>

subsection \<open>Construction of a Resolver\<close>

lemma isValid_fst:
  "fst (isValid p rc) \<longleftrightarrow>
     fst (transportMode_isValid p (TransportMode rc)) \<and>
     fst (IPVersionMode_IsValid p (IPVersionMode rc)) \<and>
     \<not> (Cache rc \<noteq> None \<and> CacheSize rc \<noteq> 0)"
  by (simp add: isValid_def split: prod.splits)

lemma InitResolver_invalid:
  "\<not> fst (isValid p config) \<Longrightarrow>
     InitResolver p e rnd h config =
       Returns (Inl (''invalid resolver config: '' @ snd (isValid p config)), h)"
  by (cases "isValid p config") (simp add: InitResolver_def)

lemma localAddr_init_fields: "localAddr (init_fields config) = []"
  by (simp add: init_fields_def Let_def)

lemma init_localAddr_init_fields:
  "init_localAddr e rnd config (init_fields config) =
     (case net_Dial e ''udp'' googleDNSResolverAddr of
        Inl err \<Rightarrow> Returns (Inl (''unable to find default IP address to open socket: '' @ err))
      | Inr ip \<Rightarrow> Returns (Inr ((init_fields config)\<lparr>localAddr := ip\<rparr>)))"
  by (simp add: init_localAddr_def localAddr_init_fields)

lemma InitResolver_valid:
  "fst (isValid p config) \<Longrightarrow>
     InitResolver p e rnd h config =
       (case net_Dial e ''udp'' googleDNSResolverAddr of
          Inl err \<Rightarrow> Returns (Inl (''unable to find default IP address to open socket: '' @ err), h)
        | Inr ip \<Rightarrow>
            (case init_conn e ((init_fields config)\<lparr>localAddr := ip\<rparr>) of
               Inl err \<Rightarrow> Returns (Inl err, h)
             | Inr r' \<Rightarrow>
                 and_then (init_nameServers p e h config (init_clients p config r'))
                   (\<lambda>(r'', h'). Returns (Inr r'', h'))))"
  by (cases "isValid p config")
     (simp add: InitResolver_def init_localAddr_init_fields split: sum.splits)

lemma init_conn_init_fields:
  "init_conn e ((init_fields config)\<lparr>localAddr := ip\<rparr>) =
     (if ShouldRecycleSockets config then
        (case net_ListenUDP e ip of
           Some err \<Rightarrow> Inl (''unable to create UDP connection: '' @ err)
         | None \<Rightarrow> Inr ((init_fields config)\<lparr>localAddr := ip,
                   conn := Some \<lparr>conn_LocalAddr = ip, conn_closed = False\<rparr>\<rparr>))
      else Inr ((init_fields config)\<lparr>localAddr := ip\<rparr>))"
  by (simp add: init_conn_def init_fields_def Let_def split: option.splits)

lemma init_clients_keeps:
  "localAddr (init_clients p config r) = localAddr r"
  "conn (init_clients p config r) = conn r"
  "lookupClient (init_clients p config r) = lookupClient r"
  by (simp_all add: init_clients_def Let_def)

lemma init_clients_bound:
  "udpClient r = None \<Longrightarrow> udpClient (init_clients p config r) = Some c \<Longrightarrow>
     client_Dialer_LocalAddr c = localAddr r"
  "tcpClient r = None \<Longrightarrow> tcpClient (init_clients p config r) = Some c \<Longrightarrow>
     client_Dialer_LocalAddr c = localAddr r"
  by (auto simp: init_clients_def Let_def split: if_splits)

lemma init_nameServers_result:
  fixes config :: "'lc ResolverConfig" and r :: "'lc Resolver"
  defines "src \<equiv> ExternalNameServers config"
  shows "\<exists>k h'. init_nameServers p e h config r =
       Returns (r\<lparr>externalNameServers := SliceOf k,
                  iterativeTimeout := IterativeTimeout config,
                  maxDepth := MaxDepth config,
                  rootNameServers := SliceOf (RootServers p)\<rparr>, h') \<and>
     next_free h \<le> k \<and> k < next_free h' \<and>
     (\<forall>a. a < next_free h \<longrightarrow> arrays h' a = arrays h a) \<and>
     (elems h src = [] \<longrightarrow>
        arrays h' k = (case GetDNSServers e defaultNameServerConfigFile of
                         Inl err \<Rightarrow> GetDefaultResolvers p
                       | Inr ns \<Rightarrow> ns)) \<and>
     (elems h src \<noteq> [] \<longrightarrow> (\<forall>a. src = SliceOf a \<longrightarrow> a < next_free h) \<longrightarrow>
        arrays h' k = elems h src)"
proof -
  define n where "n = len h src"
  define h1 where "h1 = h\<lparr>arrays := (arrays h)(next_free h := replicate n []), next_free := Suc (next_free h)\<rparr>"
  define h2 where "h2 = h1\<lparr>arrays := (arrays h1)(next_free h := elems h1 src)\<rparr>"
  have mk: "make_slice h (len h src) = (SliceOf (next_free h), h1)"
    by (simp add: make_slice_def h1_def n_def)
  have len1: "len h1 src = n"
    by (cases src) (simp_all add: h1_def n_def len_def elems_def)
  have l1: "length (elems h1 src) = n"
    using len1 by (simp add: len_def)
  have a1: "arrays h1 (next_free h) = replicate n []"
    by (simp add: h1_def)
  have l1s: "len h1 (SliceOf (next_free h)) = n"
    by (simp add: len_def elems_def a1)
  have cp: "copy h1 (SliceOf (next_free h)) src = (n, h2)"
    unfolding copy_def by (simp add: len1 l1s l1 a1 h2_def)
  have len2: "len h2 src = n"
    by (cases src) (simp_all add: h2_def h1_def n_def len_def elems_def)
  have len2s: "len h2 (SliceOf (next_free h)) = n"
    using len1 by (simp add: h2_def len_def elems_def)
  have nf2: "next_free h2 = Suc (next_free h)"
    by (simp add: h2_def h1_def)
  have old2: "a < next_free h \<Longrightarrow> arrays h2 a = arrays h a" for a
    by (simp add: h2_def h1_def)
  have n0: "n = 0 \<longleftrightarrow> elems h src = []"
    by (simp add: n_def len_def)
  define ns where "ns = (case GetDNSServers e defaultNameServerConfigFile of
                         Inl err \<Rightarrow> GetDefaultResolvers p
                       | Inr ns \<Rightarrow> ns)"
  show ?thesis
  proof (cases "n = 0")
    case True
    define h3 where "h3 = h2\<lparr>arrays := (arrays h2)(next_free h2 := ns), next_free := Suc (next_free h2)\<rparr>"
    have al: "alloc h2 ns = (SliceOf (next_free h2), h3)"
      by (simp add: alloc_def h3_def)
    have eq: "init_nameServers p e h config r =
       Returns (r\<lparr>externalNameServers := SliceOf (next_free h2),
                  iterativeTimeout := IterativeTimeout config,
                  maxDepth := MaxDepth config,
                  rootNameServers := SliceOf (RootServers p)\<rparr>, h3)"
      unfolding init_nameServers_def src_def [symmetric] mk
      by (simp add: cp len2 len2s True al ns_def [symmetric])
    have "arrays h3 (next_free h2) = ns" by (simp add: h3_def)
    moreover have "\<forall>a. a < next_free h \<longrightarrow> arrays h3 a = arrays h a"
      by (simp add: h3_def nf2 old2)
    moreover have "next_free h \<le> next_free h2 \<and> next_free h2 < next_free h3"
      by (simp add: h3_def nf2)
    ultimately show ?thesis
      using eq True n0 unfolding ns_def by blast
  next
    case False
    have eq: "init_nameServers p e h config r =
       Returns (r\<lparr>externalNameServers := SliceOf (next_free h),
                  iterativeTimeout := IterativeTimeout config,
                  maxDepth := MaxDepth config,
                  rootNameServers := SliceOf (RootServers p)\<rparr>, h2)"
      unfolding init_nameServers_def src_def [symmetric] mk
      by (simp add: cp len2 len2s False)
    have "(\<forall>a. src = SliceOf a \<longrightarrow> a < next_free h) \<longrightarrow> arrays h2 (next_free h) = elems h src"
      by (cases src) (auto simp: h2_def h1_def elems_def)
    moreover have "\<forall>a. a < next_free h \<longrightarrow> arrays h2 a = arrays h a"
      by (simp add: old2)
    ultimately show ?thesis
      using eq False n0 nf2 by auto
  qed
qed


lemma InitResolver_constructed:
  assumes ok: "InitResolver p e rnd h config = Returns (Inr r, h')"
  shows "\<exists>ip k. fst (isValid p config) \<and>
           net_Dial e ''udp'' googleDNSResolverAddr = Inr ip \<and>
           (ShouldRecycleSockets config \<longrightarrow> net_ListenUDP e ip = None) \<and>
           localAddr r = ip \<and>
           conn r = (if ShouldRecycleSockets config
                     then Some \<lparr>conn_LocalAddr = ip, conn_closed = False\<rparr> else None) \<and>
           (\<forall>c. udpClient r = Some c \<longrightarrow> client_Dialer_LocalAddr c = ip) \<and>
           (\<forall>c. tcpClient r = Some c \<longrightarrow> client_Dialer_LocalAddr c = ip) \<and>
           lookupClient r = LookupClient config \<and>
           rootNameServers r = SliceOf (RootServers p) \<and>
           externalNameServers r = SliceOf k \<and>
           next_free h \<le> k \<and> k < next_free h' \<and>
           (\<forall>a. a < next_free h \<longrightarrow> arrays h' a = arrays h a) \<and>
           (elems h (ExternalNameServers config) = [] \<longrightarrow>
              arrays h' k = (case GetDNSServers e defaultNameServerConfigFile of
                               Inl err \<Rightarrow> GetDefaultResolvers p
                             | Inr ns \<Rightarrow> ns)) \<and>
           (elems h (ExternalNameServers config) \<noteq> [] \<longrightarrow>
              (\<forall>a. ExternalNameServers config = SliceOf a \<longrightarrow> a < next_free h) \<longrightarrow>
              arrays h' k = elems h (ExternalNameServers config))"
proof -
  have v: "fst (isValid p config)"
    using ok InitResolver_invalid [of p config e rnd h] by auto
  note eq = InitResolver_valid [OF v, of e rnd h]
  obtain ip where d: "net_Dial e ''udp'' googleDNSResolverAddr = Inr ip"
    using ok eq by (cases "net_Dial e ''udp'' googleDNSResolverAddr") auto
  define r0 where "r0 = (init_fields config)\<lparr>localAddr := ip\<rparr>"
  obtain r1 where c: "init_conn e r0 = Inr r1"
    using ok eq d by (cases "init_conn e r0") (auto simp: r0_def)
  have l: "ShouldRecycleSockets config \<longrightarrow> net_ListenUDP e ip = None"
    using c by (auto simp: r0_def init_conn_init_fields split: if_splits option.splits)
  have r1: "r1 = (if ShouldRecycleSockets config
                  then r0\<lparr>conn := Some \<lparr>conn_LocalAddr = ip, conn_closed = False\<rparr>\<rparr>
                  else r0)"
    using c by (auto simp: r0_def init_conn_init_fields split: if_splits option.splits)
  define r2 where "r2 = init_clients p config r1"
  have r0f: "localAddr r0 = ip" "conn r0 = None" "udpClient r0 = None" "tcpClient r0 = None"
    "lookupClient r0 = LookupClient config"
    by (simp_all add: r0_def init_fields_def Let_def)
  have r1f: "localAddr r1 = ip" "udpClient r1 = None" "tcpClient r1 = None"
    "lookupClient r1 = LookupClient config"
    "conn r1 = (if ShouldRecycleSockets config
                then Some \<lparr>conn_LocalAddr = ip, conn_closed = False\<rparr> else None)"
    by (simp_all add: r1 r0f)
  have r2f: "localAddr r2 = ip" "lookupClient r2 = LookupClient config"
    "conn r2 = (if ShouldRecycleSockets config
                then Some \<lparr>conn_LocalAddr = ip, conn_closed = False\<rparr> else None)"
    "\<forall>c. udpClient r2 = Some c \<longrightarrow> client_Dialer_LocalAddr c = ip"
    "\<forall>c. tcpClient r2 = Some c \<longrightarrow> client_Dialer_LocalAddr c = ip"
    using init_clients_bound [of r1 p config] r1f
    by (auto simp: r2_def init_clients_keeps)
  obtain k h2 where ns: "init_nameServers p e h config r2 =
       Returns (r2\<lparr>externalNameServers := SliceOf k,
                  iterativeTimeout := IterativeTimeout config,
                  maxDepth := MaxDepth config,
                  rootNameServers := SliceOf (RootServers p)\<rparr>, h2)"
     and hp: "next_free h \<le> k" "k < next_free h2"
       "\<forall>a. a < next_free h \<longrightarrow> arrays h2 a = arrays h a"
       "elems h (ExternalNameServers config) = [] \<longrightarrow>
          arrays h2 k = (case GetDNSServers e defaultNameServerConfigFile of
                         Inl err \<Rightarrow> GetDefaultResolvers p
                       | Inr ns \<Rightarrow> ns)"
       "elems h (ExternalNameServers config) \<noteq> [] \<longrightarrow>
          (\<forall>a. ExternalNameServers config = SliceOf a \<longrightarrow> a < next_free h) \<longrightarrow>
          arrays h2 k = elems h (ExternalNameServers config)"
    using init_nameServers_result [of p e h config r2] by blast
  have res: "r = r2\<lparr>externalNameServers := SliceOf k,
                  iterativeTimeout := IterativeTimeout config,
                  maxDepth := MaxDepth config,
                  rootNameServers := SliceOf (RootServers p)\<rparr>" "h' = h2"
    using ok eq d c ns by (simp_all add: r0_def [symmetric] r2_def [symmetric])
  show ?thesis
    apply (rule exI [of _ ip], rule exI [of _ k])
    using v d l hp r2f by (simp add: res)
qed

lemma InitResolver_success:
  assumes v: "fst (isValid p config)"
    and d: "net_Dial e ''udp'' googleDNSResolverAddr = Inr ip"
    and l: "ShouldRecycleSockets config \<longrightarrow> net_ListenUDP e ip = None"
  shows "\<exists>r h'. InitResolver p e rnd h config = Returns (Inr r, h')"
proof -
  have "\<exists>r1. init_conn e ((init_fields config)\<lparr>localAddr := ip\<rparr>) = Inr r1"
    using l by (cases "ShouldRecycleSockets config") (simp_all add: init_conn_init_fields)
  then obtain r1 where c: "init_conn e ((init_fields config)\<lparr>localAddr := ip\<rparr>) = Inr r1"
    by blast
  obtain r2 h2 where "init_nameServers p e h config (init_clients p config r1) = Returns (r2, h2)"
    using init_nameServers_result [of p e h config "init_clients p config r1"] by blast
  then show ?thesis
    by (simp add: InitResolver_valid [OF v] d c)
qed

subsection \<open>Validation and dispatch\<close>

text \<open>
  A valid configuration whose construction still fails: the default configuration on a
  system where the dial that discovers the local address finds no route. The error is
  not one of the three invalidity reasons, so failure of \<open>InitResolver\<close> is not
  equivalent to invalidity of the configuration.
\<close>
theorem InitResolver_valid_config_dial_error:
  "fst (isValid sample_pkg (NewResolverConfig sample_pkg ())) \<and>
   InitResolver sample_pkg unreachable_env 0 sample_heap (NewResolverConfig sample_pkg ()) =
     Returns (Inl ''unable to find default IP address to open socket: network is unreachable'',
              sample_heap)"
proof -
  have v: "fst (isValid sample_pkg (NewResolverConfig sample_pkg ()))"
    by (simp add: isValid_fst sample_pkg_def NewResolverConfig_def)
  show ?thesis
    using v by (simp add: InitResolver_valid [OF v] unreachable_env_def)
qed

text \<open>
  Claim C1, as the code has it. \<open>InitResolver\<close> always returns, and it returns an error
  (and no Resolver) exactly when the configuration is invalid, or the dial that discovers
  the local address fails, or socket recycling is on and the UDP listen fails. Invalid
  means: the transport mode is invalid, the IP version mode is invalid, or both a Cache
  and a nonzero CacheSize are given. An invalid configuration is rejected before
  anything else happens, with the reason in the error and the heap untouched; a Resolver
  is only ever constructed from a valid configuration, so no lookup runs on an invalid
  one.
\<close>
theorem InitResolver_error_iff:
  "((\<exists>err h'. InitResolver p e rnd h config = Returns (Inl err, h')) \<longleftrightarrow>
      \<not> fst (isValid p config) \<or>
      (\<exists>err. net_Dial e ''udp'' googleDNSResolverAddr = Inl err) \<or>
      (\<exists>ip err. net_Dial e ''udp'' googleDNSResolverAddr = Inr ip \<and>
                ShouldRecycleSockets config \<and> net_ListenUDP e ip = Some err)) \<and>
   (fst (isValid p config) \<longleftrightarrow>
      fst (transportMode_isValid p (TransportMode config)) \<and>
      fst (IPVersionMode_IsValid p (IPVersionMode config)) \<and>
      \<not> (Cache config \<noteq> None \<and> CacheSize config \<noteq> 0)) \<and>
   (\<not> fst (isValid p config) \<longrightarrow>
      InitResolver p e rnd h config =
        Returns (Inl (''invalid resolver config: '' @ snd (isValid p config)), h)) \<and>
   (\<forall>r h'. InitResolver p e rnd h config = Returns (Inr r, h') \<longrightarrow> fst (isValid p config)) \<and>
   (\<exists>x h'. InitResolver p e rnd h config = Returns (x, h'))"
proof -
  let ?I = "InitResolver p e rnd h config"
  let ?D = "net_Dial e ''udp'' googleDNSResolverAddr"
  have inv: "\<not> fst (isValid p config) \<longrightarrow>
      ?I = Returns (Inl (''invalid resolver config: '' @ snd (isValid p config)), h)"
    by (simp add: InitResolver_invalid)
  have con: "\<forall>r h'. ?I = Returns (Inr r, h') \<longrightarrow> fst (isValid p config)"
    using InitResolver_constructed [of p e rnd h config] by blast
  have dial: "fst (isValid p config) \<Longrightarrow> ?D = Inl err \<Longrightarrow>
      ?I = Returns (Inl (''unable to find default IP address to open socket: '' @ err), h)" for err
    by (simp add: InitResolver_valid)
  have listen: "fst (isValid p config) \<Longrightarrow> ?D = Inr ip \<Longrightarrow> ShouldRecycleSockets config \<Longrightarrow>
      net_ListenUDP e ip = Some err \<Longrightarrow>
      ?I = Returns (Inl (''unable to create UDP connection: '' @ err), h)" for ip err
    by (simp add: InitResolver_valid init_conn_init_fields)
  have succ: "fst (isValid p config) \<Longrightarrow> ?D = Inr ip \<Longrightarrow>
      (ShouldRecycleSockets config \<longrightarrow> net_ListenUDP e ip = None) \<Longrightarrow>
      \<exists>r h'. ?I = Returns (Inr r, h')" for ip
    by (rule InitResolver_success)
  have total: "\<exists>x h'. ?I = Returns (x, h')"
  proof (cases "fst (isValid p config)")
    case False
    then show ?thesis using inv by blast
  next
    case True
    show ?thesis
    proof (cases ?D)
      case (Inl err)
      then show ?thesis using dial [OF True] by blast
    next
      case (Inr ip)
      show ?thesis
      proof (cases "ShouldRecycleSockets config \<longrightarrow> net_ListenUDP e ip = None")
        case True
        then show ?thesis using succ [OF \<open>fst (isValid p config)\<close> Inr] by blast
      next
        case False
        then obtain err where "ShouldRecycleSockets config" "net_ListenUDP e ip = Some err"
          by auto
        then show ?thesis using listen [OF True Inr] by blast
      qed
    qed
  qed
  have iff: "(\<exists>err h'. ?I = Returns (Inl err, h')) \<longleftrightarrow>
      \<not> fst (isValid p config) \<or> (\<exists>err. ?D = Inl err) \<or>
      (\<exists>ip err. ?D = Inr ip \<and> ShouldRecycleSockets config \<and> net_ListenUDP e ip = Some err)"
    (is "?L \<longleftrightarrow> ?R")
  proof
    assume ?L
    show ?R
    proof (rule ccontr)
      assume n: "\<not> ?R"
      then have v: "fst (isValid p config)" by blast
      from n obtain ip where d: "?D = Inr ip" by (cases ?D) auto
      from n d have "ShouldRecycleSockets config \<longrightarrow> net_ListenUDP e ip = None" by auto
      from succ [OF v d this] \<open>?L\<close> show False by auto
    qed
  next
    assume ?R
    then show ?L using inv dial listen by blast
  qed
  show ?thesis using iff isValid_fst [of p config] inv con total by blast
qed


lemma randomExternalNameServer_nonempty:
  "elems h (externalNameServers r) \<noteq> [] \<Longrightarrow>
     randomExternalNameServer h r rnd =
       Returns (elems h (externalNameServers r) ! (rnd mod length (elems h (externalNameServers r))), r, h)"
  by (cases "externalNameServers r")
     (simp_all add: randomExternalNameServer_def Intn_def index_def len_def elems_def)

lemma randomExternalNameServer_empty:
  "elems h (externalNameServers r) = [] \<Longrightarrow>
     randomExternalNameServer h r rnd = Fatal ''no external name servers specified''"
  by (simp add: randomExternalNameServer_def len_def)

lemma randomRootNameServer_nonempty:
  "elems h (rootNameServers r) \<noteq> [] \<Longrightarrow>
     randomRootNameServer h r rnd =
       Returns (elems h (rootNameServers r) ! (rnd mod length (elems h (rootNameServers r))), r, h)"
  by (cases "rootNameServers r")
     (simp_all add: randomRootNameServer_def Intn_def index_def len_def elems_def)

lemma randomRootNameServer_empty:
  "elems h (rootNameServers r) = [] \<Longrightarrow>
     randomRootNameServer h r rnd = Fatal ''no root name servers specified''"
  by (simp add: randomRootNameServer_def len_def)

lemma ExternalLookup_given:
  "dstServer \<noteq> [] \<Longrightarrow>
     ExternalLookup dl h r q dstServer rnd = Returns (dl (lookupClient r) r q dstServer False, r, h)"
  by (simp add: ExternalLookup_def)

lemma ExternalLookup_random:
  "elems h (externalNameServers r) \<noteq> [] \<Longrightarrow>
     ExternalLookup dl h r q [] rnd =
       Returns (dl (lookupClient r) r q
                  (elems h (externalNameServers r) ! (rnd mod length (elems h (externalNameServers r))))
                  False, r, h)"
  by (simp add: ExternalLookup_def randomExternalNameServer_nonempty)

lemma IterativeLookup_random:
  "elems h (rootNameServers r) \<noteq> [] \<Longrightarrow>
     IterativeLookup dl h r q rnd =
       Returns (dl (lookupClient r) r q
                  (elems h (rootNameServers r) ! (rnd mod length (elems h (rootNameServers r))))
                  True, r, h)"
  by (simp add: IterativeLookup_def randomRootNameServer_nonempty)

text \<open>
  Claim C2. \<open>ExternalLookup\<close> with a non-empty \<open>dstServer\<close> calls the Lookuper with exactly
  that server. With an empty \<open>dstServer\<close> it calls it with the element of the external
  name-server list that the random draw selects, which is a member of that list, and
  every member can be drawn; only when the list has no server to choose is nothing
  dispatched (the fatal exit). In both cases the iterative flag is false, and the
  Resolver and the heap are left as they were.
\<close>

theorem ExternalLookup_dispatch:
  "(dstServer \<noteq> [] \<longrightarrow>
      ExternalLookup dl h r q dstServer rnd =
        Returns (dl (lookupClient r) r q dstServer False, r, h)) \<and>
   ExternalLookup dl h r q [] rnd =
     (if elems h (externalNameServers r) = []
      then Fatal ''no external name servers specified''
      else Returns (dl (lookupClient r) r q
                      (elems h (externalNameServers r) !
                         (rnd mod length (elems h (externalNameServers r))))
                      False, r, h)) \<and>
   (elems h (externalNameServers r) \<noteq> [] \<longrightarrow>
      elems h (externalNameServers r) ! (rnd mod length (elems h (externalNameServers r)))
        \<in> set (elems h (externalNameServers r))) \<and>
   (\<forall>s \<in> set (elems h (externalNameServers r)).
      \<exists>rnd'. ExternalLookup dl h r q [] rnd' = Returns (dl (lookupClient r) r q s False, r, h))"
proof -
  let ?xs = "elems h (externalNameServers r)"
  have a: "dstServer \<noteq> [] \<longrightarrow>
      ExternalLookup dl h r q dstServer rnd = Returns (dl (lookupClient r) r q dstServer False, r, h)"
    by (simp add: ExternalLookup_given)
  have b: "ExternalLookup dl h r q [] rnd =
     (if ?xs = [] then Fatal ''no external name servers specified''
      else Returns (dl (lookupClient r) r q (?xs ! (rnd mod length ?xs)) False, r, h))"
    by (simp add: ExternalLookup_random) (simp add: ExternalLookup_def randomExternalNameServer_empty)
  have m: "?xs \<noteq> [] \<longrightarrow> ?xs ! (rnd mod length ?xs) \<in> set ?xs"
    by simp
  have c: "\<exists>rnd'. ExternalLookup dl h r q [] rnd' = Returns (dl (lookupClient r) r q s False, r, h)"
    if s: "s \<in> set ?xs" for s
  proof -
    from s obtain i where i: "i < length ?xs" "?xs ! i = s"
      by (auto simp: in_set_conv_nth)
    then have "?xs \<noteq> []" by auto
    from ExternalLookup_random [OF this, of dl q i] i
    show ?thesis by auto
  qed
  show ?thesis using a b m c by blast
qed

text \<open>The dispatch at a Resolver whose external list is the two servers at address 1.\<close>
theorem ExternalLookup_dispatch_witness:
  "ExternalLookup echo_lookup sample_heap
     ((init_fields (NewResolverConfig sample_pkg ()))\<lparr>externalNameServers := SliceOf 1\<rparr>)
     \<lparr>q_Name = ''example.com'', q_Type = 15, q_Class = 1\<rparr> [] 3 =
     Returns ((''192.0.2.54:53'', False),
       (init_fields (NewResolverConfig sample_pkg ()))\<lparr>externalNameServers := SliceOf 1\<rparr>,
       sample_heap) \<and>
   ExternalLookup echo_lookup sample_heap
     ((init_fields (NewResolverConfig sample_pkg ()))\<lparr>externalNameServers := SliceOf 1\<rparr>)
     \<lparr>q_Name = ''example.com'', q_Type = 15, q_Class = 1\<rparr> ''9.9.9.9:53'' 3 =
     Returns ((''9.9.9.9:53'', False),
       (init_fields (NewResolverConfig sample_pkg ()))\<lparr>externalNameServers := SliceOf 1\<rparr>,
       sample_heap)"
proof -
  let ?r = "(init_fields (NewResolverConfig sample_pkg ()))\<lparr>externalNameServers := SliceOf 1\<rparr>"
  let ?q = "\<lparr>q_Name = ''example.com'', q_Type = 15, q_Class = 1\<rparr>"
  have xs: "elems sample_heap (SliceOf (Suc 0)) = [''192.0.2.53:53'', ''192.0.2.54:53'']"
    by (simp add: elems_def sample_heap_def)
  have n: "(3::nat) mod Suc (Suc 0) = Suc 0"
    by (simp add: eval_nat_numeral mod_Suc)
  show ?thesis
    using ExternalLookup_dispatch [of "''9.9.9.9:53''" echo_lookup sample_heap ?r ?q 3]
    by (simp add: xs n echo_lookup_def)
qed


text \<open>
  Claim C3. A Resolver constructed by \<open>InitResolver\<close> has the package's \<open>RootServers\<close> as
  its root name-server list, and \<open>IterativeLookup\<close> calls the Lookuper with the root
  server that the random draw selects and with the iterative flag true; the choice does
  not depend on the external name-server list, whatever that list is.
\<close>
theorem IterativeLookup_dispatch:
  assumes ok: "InitResolver p e rnd0 h0 config = Returns (Inr r, h)"
    and alloc: "RootServers p < next_free h0"
    and roots: "arrays h0 (RootServers p) \<noteq> []"
  shows "rootNameServers r = SliceOf (RootServers p) \<and>
    elems h (rootNameServers r) = arrays h0 (RootServers p) \<and>
    IterativeLookup dl h r q rnd =
      Returns (dl (lookupClient r) r q
                 (arrays h0 (RootServers p) ! (rnd mod length (arrays h0 (RootServers p))))
                 True, r, h) \<and>
    arrays h0 (RootServers p) ! (rnd mod length (arrays h0 (RootServers p)))
      \<in> set (arrays h0 (RootServers p)) \<and>
    (\<forall>s. IterativeLookup dl h (r\<lparr>externalNameServers := s\<rparr>) q rnd =
      Returns (dl (lookupClient r) (r\<lparr>externalNameServers := s\<rparr>) q
                 (arrays h0 (RootServers p) ! (rnd mod length (arrays h0 (RootServers p))))
                 True, r\<lparr>externalNameServers := s\<rparr>, h))"
proof -
  from InitResolver_constructed [OF ok]
  have rt: "rootNameServers r = SliceOf (RootServers p)"
    and old: "\<forall>a. a < next_free h0 \<longrightarrow> arrays h a = arrays h0 a"
    by blast+
  have el: "elems h (rootNameServers r) = arrays h0 (RootServers p)"
    using old alloc by (simp add: rt elems_def)
  have ne: "elems h (rootNameServers r) \<noteq> []"
    using roots by (simp add: el)
  have l: "IterativeLookup dl h r q rnd =
      Returns (dl (lookupClient r) r q
                 (arrays h0 (RootServers p) ! (rnd mod length (arrays h0 (RootServers p))))
                 True, r, h)"
    using IterativeLookup_random [OF ne, of dl q rnd] by (simp add: el)
  have m: "arrays h0 (RootServers p) ! (rnd mod length (arrays h0 (RootServers p)))
      \<in> set (arrays h0 (RootServers p))"
    using roots by simp
  have i: "IterativeLookup dl h (r\<lparr>externalNameServers := s\<rparr>) q rnd =
      Returns (dl (lookupClient r) (r\<lparr>externalNameServers := s\<rparr>) q
                 (arrays h0 (RootServers p) ! (rnd mod length (arrays h0 (RootServers p))))
                 True, r\<lparr>externalNameServers := s\<rparr>, h)" for s
  proof -
    have "elems h (rootNameServers (r\<lparr>externalNameServers := s\<rparr>)) \<noteq> []"
      using ne by simp
    from IterativeLookup_random [OF this, of dl q rnd] show ?thesis
      by (simp add: el)
  qed
  show ?thesis using rt el l m i by blast
qed

subsection \<open>Local address, name-server lists, empty lists\<close>

lemma isValid_sample_config: "isValid sample_pkg sample_config = (True, [])"
  by (simp add: isValid_def sample_pkg_def sample_config_def NewResolverConfig_def)

lemma InitResolver_sample:
  "InitResolver sample_pkg sample_env 0 sample_heap (sample_config\<lparr>LocalAddrs := addrs\<rparr>) =
     Returns (Inr sample_resolver, sample_heap_constructed)"
proof -
  let ?c = "sample_config\<lparr>LocalAddrs := addrs\<rparr>"
  have v: "fst (isValid sample_pkg ?c)"
    by (simp add: isValid_def sample_pkg_def sample_config_def NewResolverConfig_def)
  have d: "net_Dial sample_env ''udp'' googleDNSResolverAddr = Inr [10, 0, 0, 1]"
    by (simp add: sample_env_def)
  have c: "init_conn sample_env ((init_fields ?c)\<lparr>localAddr := [10, 0, 0, 1]\<rparr>) =
     Inr ((init_fields ?c)\<lparr>localAddr := [10, 0, 0, 1],
            conn := Some \<lparr>conn_LocalAddr = [10, 0, 0, 1], conn_closed = False\<rparr>\<rparr>)"
    by (simp add: init_conn_init_fields) (simp add: sample_env_def sample_config_def NewResolverConfig_def)
  have n: "init_nameServers sample_pkg sample_env sample_heap ?c
      (init_clients sample_pkg ?c ((init_fields ?c)\<lparr>localAddr := [10, 0, 0, 1],
            conn := Some \<lparr>conn_LocalAddr = [10, 0, 0, 1], conn_closed = False\<rparr>\<rparr>)) =
      Returns (sample_resolver, sample_heap_constructed)"
    by (simp add: init_nameServers_def init_clients_def init_fields_def make_slice_def copy_def
        len_def elems_def Let_def sample_config_def NewResolverConfig_def sample_pkg_def
        sample_heap_def sample_resolver_def sample_heap_constructed_def defaultCacheSize_def
        Second_def)
  show ?thesis
    by (simp add: InitResolver_valid [OF v] d c n)
qed


text \<open>A configuration with both a Cache and a CacheSize is rejected at construction.\<close>
theorem InitResolver_error_iff_witness:
  "InitResolver sample_pkg sample_env 0 sample_heap (sample_config\<lparr>CacheSize := 100\<rparr>) =
     Returns (Inl ''invalid resolver config: cannot use both cache and cacheSize'', sample_heap)"
proof -
  have v: "isValid sample_pkg (sample_config\<lparr>CacheSize := 100\<rparr>) =
      (False, ''cannot use both cache and cacheSize'')"
    by (simp add: isValid_def sample_pkg_def sample_config_def NewResolverConfig_def)
  show ?thesis
    using InitResolver_error_iff [of sample_pkg sample_env 0 sample_heap
        "sample_config\<lparr>CacheSize := 100\<rparr>"]
    by (simp add: v)
qed

text \<open>The constructed sample Resolver starts an iterative lookup at the second root server when the draw is 14.\<close>
theorem IterativeLookup_dispatch_witness:
  "IterativeLookup echo_lookup sample_heap_constructed sample_resolver sample_question 14 =
     Returns ((''170.247.170.2:53'', True), sample_resolver, sample_heap_constructed)"
proof -
  have ok: "InitResolver sample_pkg sample_env 0 sample_heap sample_config =
      Returns (Inr sample_resolver, sample_heap_constructed)"
    using InitResolver_sample [of "LocalAddrs sample_config"] by simp
  have al: "RootServers sample_pkg < next_free sample_heap"
    by (simp add: sample_pkg_def sample_heap_def)
  have rs: "arrays sample_heap (RootServers sample_pkg) =
     [''198.41.0.4:53'', ''170.247.170.2:53'', ''192.33.4.12:53'', ''199.7.91.13:53'',
      ''192.203.230.10:53'', ''192.5.5.241:53'', ''192.112.36.4:53'',
      ''198.97.190.53:53'', ''192.36.148.17:53'', ''192.58.128.30:53'',
      ''193.0.14.129:53'', ''199.7.83.42:53'', ''202.12.27.33:53'']"
    by (simp add: sample_pkg_def sample_heap_def)
  have ne: "arrays sample_heap (RootServers sample_pkg) \<noteq> []"
    by (simp add: rs)
  have n: "(14::nat) mod 13 = 1"
    by simp
  show ?thesis
    using IterativeLookup_dispatch [OF ok al ne, of echo_lookup sample_question 14]
    by (simp add: rs n echo_lookup_def)
qed

text \<open>
  Claim C4 against the code. The configuration supplies the local address 192.0.2.7.
  \<open>InitResolver\<close> tests the length of the Resolver's own \<open>localAddr\<close>, which the struct
  literal leaves empty, so it always dials: the Resolver gets the dialled address
  10.0.0.1, not the supplied one, and on a system without a route construction fails
  although a local address was supplied.
\<close>
theorem InitResolver_LocalAddrs_ignored:
  "InitResolver sample_pkg sample_env 0 sample_heap (sample_config\<lparr>LocalAddrs := [[192, 0, 2, 7]]\<rparr>) =
     Returns (Inr sample_resolver, sample_heap_constructed) \<and>
   localAddr sample_resolver = [10, 0, 0, 1] \<and>
   InitResolver sample_pkg unreachable_env 0 sample_heap
       (sample_config\<lparr>LocalAddrs := [[192, 0, 2, 7]]\<rparr>) =
     Returns (Inl ''unable to find default IP address to open socket: network is unreachable'',
              sample_heap)"
proof -
  have v: "fst (isValid sample_pkg (sample_config\<lparr>LocalAddrs := [[192, 0, 2, 7]]\<rparr>))"
    by (simp add: isValid_def sample_pkg_def sample_config_def NewResolverConfig_def)
  have u: "InitResolver sample_pkg unreachable_env 0 sample_heap
       (sample_config\<lparr>LocalAddrs := [[192, 0, 2, 7]]\<rparr>) =
     Returns (Inl ''unable to find default IP address to open socket: network is unreachable'',
              sample_heap)"
    by (simp add: InitResolver_valid [OF v] unreachable_env_def)
  show ?thesis
    by (simp add: InitResolver_sample u) (simp add: sample_resolver_def)
qed

lemma random_helpers_keep:
  "randomExternalNameServer h r rnd = Returns (s, r', h') \<Longrightarrow> r' = r \<and> h' = h"
  "randomRootNameServer h r rnd = Returns (s, r', h') \<Longrightarrow> r' = r \<and> h' = h"
  by (auto simp: randomExternalNameServer_def randomRootNameServer_def Intn_def index_def Let_def
      split: if_splits)

lemma lookups_keep:
  "ExternalLookup dl h r q dst rnd = Returns (x, r', h') \<Longrightarrow> r' = r \<and> h' = h"
  "IterativeLookup dl' h r q rnd = Returns (y, r', h') \<Longrightarrow> r' = r \<and> h' = h"
proof -
  show "ExternalLookup dl h r q dst rnd = Returns (x, r', h') \<Longrightarrow> r' = r \<and> h' = h"
    by (cases "randomExternalNameServer h r rnd")
       (auto simp: ExternalLookup_def split: if_splits dest: random_helpers_keep)
  show "IterativeLookup dl' h r q rnd = Returns (y, r', h') \<Longrightarrow> r' = r \<and> h' = h"
    by (cases "randomRootNameServer h r rnd")
       (auto simp: IterativeLookup_def dest: random_helpers_keep)
qed

lemma Close_keeps:
  "externalNameServers (fst (Close h r)) = externalNameServers r"
  "rootNameServers (fst (Close h r)) = rootNameServers r"
  "localAddr (fst (Close h r)) = localAddr r"
  "snd (Close h r) = h"
  by (simp_all add: Close_def split: option.splits)

text \<open>
  Claim C5. For a Resolver constructed from a configuration whose name-server slice is
  allocated: when the configuration names servers, the external list holds exactly
  them; it is a different backing array, so writing anything to the configuration's
  array afterwards leaves the Resolver's external list as it was; and
  \<open>ExternalLookup\<close>, \<open>IterativeLookup\<close>, the two random-selection helpers and \<open>Close\<close>
  leave both lists and the heap unchanged.
\<close>
theorem name_server_lists_fixed:
  assumes ok: "InitResolver p e rnd0 h0 config = Returns (Inr r, h)"
    and wf: "\<forall>a. ExternalNameServers config = SliceOf a \<longrightarrow> a < next_free h0"
  shows "(elems h0 (ExternalNameServers config) \<noteq> [] \<longrightarrow>
            elems h (externalNameServers r) = elems h0 (ExternalNameServers config)) \<and>
    externalNameServers r \<noteq> ExternalNameServers config \<and>
    (\<forall>a xs. ExternalNameServers config = SliceOf a \<longrightarrow>
       elems (h\<lparr>arrays := (arrays h)(a := xs)\<rparr>) (externalNameServers r) =
         elems h (externalNameServers r)) \<and>
    (\<forall>dst rnd x r' h'. ExternalLookup dl h r q dst rnd = Returns (x, r', h') \<longrightarrow>
       r' = r \<and> h' = h) \<and>
    (\<forall>rnd x r' h'. IterativeLookup dl h r q rnd = Returns (x, r', h') \<longrightarrow>
       r' = r \<and> h' = h) \<and>
    (\<forall>rnd s r' h'. randomExternalNameServer h r rnd = Returns (s, r', h') \<longrightarrow>
       r' = r \<and> h' = h) \<and>
    (\<forall>rnd s r' h'. randomRootNameServer h r rnd = Returns (s, r', h') \<longrightarrow>
       r' = r \<and> h' = h) \<and>
    externalNameServers (fst (Close h r)) = externalNameServers r \<and>
    rootNameServers (fst (Close h r)) = rootNameServers r \<and>
    snd (Close h r) = h"
proof -
  from InitResolver_constructed [OF ok] obtain k where
    ex: "externalNameServers r = SliceOf k" and k: "next_free h0 \<le> k"
    and cp: "elems h0 (ExternalNameServers config) \<noteq> [] \<longrightarrow>
              (\<forall>a. ExternalNameServers config = SliceOf a \<longrightarrow> a < next_free h0) \<longrightarrow>
              arrays h k = elems h0 (ExternalNameServers config)"
    by blast
  have a: "elems h0 (ExternalNameServers config) \<noteq> [] \<longrightarrow>
            elems h (externalNameServers r) = elems h0 (ExternalNameServers config)"
    using cp wf by (simp add: ex elems_def)
  have b: "externalNameServers r \<noteq> ExternalNameServers config"
  proof
    assume "externalNameServers r = ExternalNameServers config"
    then have "ExternalNameServers config = SliceOf k" by (simp add: ex)
    with wf have "k < next_free h0" by blast
    with k show False by simp
  qed
  have c: "\<forall>a xs. ExternalNameServers config = SliceOf a \<longrightarrow>
       elems (h\<lparr>arrays := (arrays h)(a := xs)\<rparr>) (externalNameServers r) =
         elems h (externalNameServers r)"
  proof (intro allI impI)
    fix a xs
    assume "ExternalNameServers config = SliceOf a"
    with wf have "a < next_free h0" by blast
    with k have "a \<noteq> k" by simp
    then show "elems (h\<lparr>arrays := (arrays h)(a := xs)\<rparr>) (externalNameServers r) =
         elems h (externalNameServers r)"
      by (simp add: ex elems_def)
  qed
  show ?thesis
    using a b c lookups_keep [of dl h r q] random_helpers_keep [of h r] Close_keeps [of h r]
    by blast
qed

text \<open>Overwriting the caller's array at address 1 after construction does not reach the sample Resolver.\<close>
theorem name_server_lists_fixed_witness:
  "elems (sample_heap_constructed\<lparr>arrays :=
             (arrays sample_heap_constructed)(1 := [''203.0.113.9:53''])\<rparr>)
         (externalNameServers sample_resolver) =
     [''192.0.2.53:53'', ''192.0.2.54:53''] \<and>
   externalNameServers sample_resolver \<noteq> ExternalNameServers sample_config"
proof -
  have ok: "InitResolver sample_pkg sample_env 0 sample_heap sample_config =
      Returns (Inr sample_resolver, sample_heap_constructed)"
    using InitResolver_sample [of "LocalAddrs sample_config"] by simp
  have cf: "ExternalNameServers sample_config = SliceOf 1"
    by (simp add: sample_config_def)
  have wf: "\<forall>a. ExternalNameServers sample_config = SliceOf a \<longrightarrow> a < next_free sample_heap"
    by (simp add: cf sample_heap_def)
  have el: "elems sample_heap (SliceOf (Suc 0)) = [''192.0.2.53:53'', ''192.0.2.54:53'']"
    by (simp add: elems_def sample_heap_def)
  show ?thesis
    using name_server_lists_fixed [OF ok wf, of echo_lookup sample_question]
    by (simp add: cf el)
qed

text \<open>
  Claim C6. With an empty or nil external name-server list, \<open>ExternalLookup\<close> with an empty
  server argument ends in \<open>log.Fatal\<close> instead of returning; so does \<open>IterativeLookup\<close>
  with an empty or nil root list, and \<open>randomNameServer\<close> of the earlier Resolver with an
  empty or nil list.
\<close>
theorem lookup_without_servers_is_fatal:
  "(elems h (externalNameServers r) = [] \<longrightarrow>
      ExternalLookup dl h r q [] rnd = Fatal ''no external name servers specified'') \<and>
   (elems h (rootNameServers r) = [] \<longrightarrow>
      IterativeLookup dl h r q rnd = Fatal ''no root name servers specified'') \<and>
   (elems h nameServers = [] \<longrightarrow>
      randomNameServer h nameServers rnd = Fatal ''No name servers specified'')"
  by (simp add: ExternalLookup_def IterativeLookup_def randomExternalNameServer_empty
      randomRootNameServer_empty randomNameServer_def len_def)

text \<open>The Resolver of the struct literal alone has nil lists.\<close>
theorem lookup_without_servers_is_fatal_witness:
  "ExternalLookup echo_lookup sample_heap (init_fields sample_config) sample_question [] 5 =
     Fatal ''no external name servers specified'' \<and>
   IterativeLookup echo_lookup sample_heap (init_fields sample_config) sample_question 5 =
     Fatal ''no root name servers specified'' \<and>
   randomNameServer sample_heap NilSlice 5 = Fatal ''No name servers specified''"
  using lookup_without_servers_is_fatal [of sample_heap "init_fields sample_config"
      echo_lookup sample_question 5 NilSlice]
  by (simp add: elems_def init_fields_def Let_def)

subsection \<open>The cache and lookupIPs\<close>

lemma Get_miss: "fst (CacheHash_Get c k) = None \<Longrightarrow> CacheHash_Get c k = (None, c)"
  by (simp add: CacheHash_Get_def split: option.splits)

lemma Get_hit:
  "fst (CacheHash_Get c k) = Some v \<Longrightarrow>
     CacheHash_Get c k = (Some v, c\<lparr>entries := (k, v) # filter (\<lambda>kv. fst kv \<noteq> k) (entries c)\<rparr>) \<and>
     (k, v) \<in> set (entries c)"
  by (auto simp: CacheHash_Get_def split: option.splits dest: map_of_SomeD)

lemma Get_entries: "set (entries (snd (CacheHash_Get c k))) \<subseteq> set (entries c)"
  by (auto simp: CacheHash_Get_def split: option.splits dest: map_of_SomeD)

lemma Upsert_entries: "set (entries (CacheHash_Upsert c k v)) \<subseteq> insert (k, v) (set (entries c))"
  by (auto simp: CacheHash_Upsert_def dest: in_set_butlastD)

lemma Get_Upsert:
  "CacheHash_Get (CacheHash_Upsert c k v) k =
     (Some v, (CacheHash_Upsert c k v)\<lparr>entries :=
        (k, v) # filter (\<lambda>kv. fst kv \<noteq> k) (entries (CacheHash_Upsert c k v))\<rparr>)"
  by (simp add: CacheHash_Get_def CacheHash_Upsert_def)

lemma lookupIPs_nil:
  "CacheHash mxMod = None \<Longrightarrow>
     lookupIPs dt mxMod log name nameServer ipMode = Panic ''nil pointer dereference''"
  by (simp add: lookupIPs_def)

lemma lookupIPs_hit:
  "CacheHash mxMod = Some ch \<Longrightarrow> fst (CacheHash_Get ch name) = Some v \<Longrightarrow>
     lookupIPs dt mxMod log name nameServer ipMode =
       Returns ((v, []), mxMod\<lparr>CacheHash := Some (snd (CacheHash_Get ch name))\<rparr>, log)"
  by (cases "CacheHash_Get ch name") (simp add: lookupIPs_def)

lemma lookupIPs_miss:
  assumes "CacheHash mxMod = Some ch" and "fst (CacheHash_Get ch name) = None"
    and "dt log (name, nameServer, basic_IsIterative (BasicLookupModule mxMod),
                 IPv4Lookup mxMod, IPv6Lookup mxMod) = (result, trace, status, err)"
  shows "lookupIPs dt mxMod log name nameServer ipMode =
       Returns
        (((case result of
             Some ips \<Rightarrow> if status = StatusNoError
                         then \<lparr>IPv4Addresses = res_IPv4Addresses ips,
                               IPv6Addresses = res_IPv6Addresses ips\<rparr>
                         else \<lparr>IPv4Addresses = [], IPv6Addresses = []\<rparr>
           | None \<Rightarrow> \<lparr>IPv4Addresses = [], IPv6Addresses = []\<rparr>), trace),
         mxMod\<lparr>CacheHash := Some (CacheHash_Upsert ch name
           (case result of
             Some ips \<Rightarrow> if status = StatusNoError
                         then \<lparr>IPv4Addresses = res_IPv4Addresses ips,
                               IPv6Addresses = res_IPv6Addresses ips\<rparr>
                         else \<lparr>IPv4Addresses = [], IPv6Addresses = []\<rparr>
           | None \<Rightarrow> \<lparr>IPv4Addresses = [], IPv6Addresses = []\<rparr>))\<rparr>,
         log @ [(name, nameServer, basic_IsIterative (BasicLookupModule mxMod),
                 IPv4Lookup mxMod, IPv6Lookup mxMod)])"
  using assms
  by (simp add: lookupIPs_def Get_miss Let_def split: option.splits)

lemma lookupIPs_miss_failed:
  assumes "CacheHash mxMod = Some ch" and "fst (CacheHash_Get ch name) = None"
    and "call = (name, nameServer, basic_IsIterative (BasicLookupModule mxMod),
                 IPv4Lookup mxMod, IPv6Lookup mxMod)"
    and "failed (dt log call)"
  shows "lookupIPs dt mxMod log name nameServer ipMode =
       Returns ((\<lparr>IPv4Addresses = [], IPv6Addresses = []\<rparr>, trace_of (dt log call)),
                mxMod\<lparr>CacheHash := Some (CacheHash_Upsert ch name
                                            \<lparr>IPv4Addresses = [], IPv6Addresses = []\<rparr>)\<rparr>,
                log @ [call])"
  using assms
  by (cases "dt log call")
     (auto simp: lookupIPs_def Get_miss Let_def failed_def trace_of_def split: option.splits)


lemma LookupIPs_hit:
  "CacheHash mx = Some ch \<Longrightarrow> fst (CacheHash_Get ch name) = Some v \<Longrightarrow>
     LookupIPs dt (Some mx) log name nameServer lookupIpv4 lookupIpv6 =
       Returns ((v, []), Some (mx\<lparr>CacheHash := Some (snd (CacheHash_Get ch name))\<rparr>), log)"
  by (cases "CacheHash_Get ch name") (simp add: LookupIPs_def)

lemma LookupIPs_miss_failed:
  assumes "CacheHash mx = Some ch" and "fst (CacheHash_Get ch name) = None"
    and "failed (dt log (name, nameServer, lookupIpv4, lookupIpv6))"
  shows "LookupIPs dt (Some mx) log name nameServer lookupIpv4 lookupIpv6 =
       Returns ((\<lparr>IPv4Addresses = [], IPv6Addresses = []\<rparr>,
                 trace_of (dt log (name, nameServer, lookupIpv4, lookupIpv6))),
                Some (mx\<lparr>CacheHash := Some (CacheHash_Add ch name
                                            \<lparr>IPv4Addresses = [], IPv6Addresses = []\<rparr>)\<rparr>),
                log @ [(name, nameServer, lookupIpv4, lookupIpv6)])"
  using assms
  by (cases "dt log (name, nameServer, lookupIpv4, lookupIpv6)")
     (auto simp: LookupIPs_def Get_miss Let_def failed_def trace_of_def split: option.splits)

lemma map_of_filter_other:
  "n \<noteq> k \<Longrightarrow> map_of (filter (\<lambda>kv. fst kv \<noteq> k) xs) n = map_of xs n"
  by (induction xs) auto

lemma Get_fst: "fst (CacheHash_Get c k) = map_of (entries c) k"
  by (simp add: CacheHash_Get_def split: option.splits)

lemma Get_keeps_other:
  "n \<noteq> k \<Longrightarrow> fst (CacheHash_Get (snd (CacheHash_Get c k)) n) = fst (CacheHash_Get c n)"
  by (simp add: Get_fst) (simp add: CacheHash_Get_def map_of_filter_other split: option.splits)

lemma Upsert_keeps_other:
  "n \<noteq> k \<Longrightarrow> map_of (entries c) k \<noteq> None \<or> int (length (entries c)) < maxLen c \<Longrightarrow>
     fst (CacheHash_Get (CacheHash_Upsert c k v) n) = fst (CacheHash_Get c n)"
  by (auto simp: Get_fst CacheHash_Upsert_def map_of_filter_other)

lemma Get_keeps:
  "fst (CacheHash_Get (snd (CacheHash_Get c k)) n) = fst (CacheHash_Get c n)"
proof (cases "n = k")
  case False
  then show ?thesis by (simp add: Get_keeps_other)
next
  case True
  then show ?thesis
    by (simp add: Get_fst) (simp add: CacheHash_Get_def split: option.splits)
qed

lemma Upsert_other_None:
  assumes "n \<noteq> k" and "fst (CacheHash_Get c n) = None"
  shows "fst (CacheHash_Get (CacheHash_Upsert c k v) n) = None"
proof -
  from assms(2) have "n \<notin> fst ` set (entries c)"
    by (simp add: Get_fst map_of_eq_None_iff)
  with assms(1) Upsert_entries [of c k v]
  have "n \<notin> fst ` set (entries (CacheHash_Upsert c k v))"
    by force
  then show ?thesis
    by (simp add: Get_fst map_of_eq_None_iff)
qed

subsection \<open>The loop over the answers\<close>

lemma responses_append:
  "responses dt log (cs @ ds) = responses dt log cs @ responses dt (log @ cs) ds"
  by (induction cs arbitrary: log) auto

lemma lookupIPs_Returns:
  assumes "lookupIPs dt mxMod log name nameServer ipMode = Returns ((ips, tr), m1, log1)"
  shows "\<exists>ch. CacheHash mxMod = Some ch \<and>
     ((fst (CacheHash_Get ch name) = Some ips \<and> tr = [] \<and> log1 = log \<and>
        m1 = mxMod\<lparr>CacheHash := Some (snd (CacheHash_Get ch name))\<rparr>) \<or>
      (fst (CacheHash_Get ch name) = None \<and>
        log1 = log @ [(name, nameServer, basic_IsIterative (BasicLookupModule mxMod),
                       IPv4Lookup mxMod, IPv6Lookup mxMod)] \<and>
        tr = trace_of (dt log (name, nameServer, basic_IsIterative (BasicLookupModule mxMod),
                               IPv4Lookup mxMod, IPv6Lookup mxMod)) \<and>
        (failed (dt log (name, nameServer, basic_IsIterative (BasicLookupModule mxMod),
                         IPv4Lookup mxMod, IPv6Lookup mxMod)) \<longrightarrow>
           ips = \<lparr>IPv4Addresses = [], IPv6Addresses = []\<rparr>) \<and>
        m1 = mxMod\<lparr>CacheHash := Some (CacheHash_Upsert ch name ips)\<rparr>))"
proof (cases "CacheHash mxMod")
  case None
  with assms show ?thesis by (simp add: lookupIPs_nil)
next
  case (Some ch)
  let ?call = "(name, nameServer, basic_IsIterative (BasicLookupModule mxMod),
                IPv4Lookup mxMod, IPv6Lookup mxMod)"
  show ?thesis
  proof (cases "fst (CacheHash_Get ch name)")
    case (Some v)
    from lookupIPs_hit [OF \<open>CacheHash mxMod = Some ch\<close> Some, of dt log nameServer ipMode] assms
    show ?thesis using \<open>CacheHash mxMod = Some ch\<close> Some by auto
  next
    case None
    obtain result trace status err where d: "dt log ?call = (result, trace, status, err)"
      by (cases "dt log ?call") auto
    from lookupIPs_miss [where dt = dt and log = log, OF \<open>CacheHash mxMod = Some ch\<close> None d, of ipMode] assms
    show ?thesis using \<open>CacheHash mxMod = Some ch\<close> None
      by (auto simp: trace_of_def failed_def d split: option.splits)
  qed
qed

lemma lookupIPs_total:
  "CacheHash mxMod = Some ch \<Longrightarrow>
     \<exists>ips tr m1 log1 ch1. lookupIPs dt mxMod log name nameServer ipMode = Returns ((ips, tr), m1, log1) \<and>
        CacheHash m1 = Some ch1"
proof (cases "fst (CacheHash_Get ch name)")
  case (Some v)
  assume "CacheHash mxMod = Some ch"
  from lookupIPs_hit [OF this Some, of dt log nameServer ipMode] show ?thesis by simp
next
  case None
  assume c: "CacheHash mxMod = Some ch"
  let ?call = "(name, nameServer, basic_IsIterative (BasicLookupModule mxMod),
                IPv4Lookup mxMod, IPv6Lookup mxMod)"
  obtain result trace status err where d: "dt log ?call = (result, trace, status, err)"
    by (cases "dt log ?call") auto
  from lookupIPs_miss [where dt = dt and log = log, OF c None d, of ipMode] show ?thesis by simp
qed


lemma exchange_names_simps:
  "exchange_names [] = []"
  "exchange_names (OtherAnswer a # rest) = exchange_names rest"
  "exchange_names (PrefAnswer a pref # rest) = TrimSuffix (ans_Answer a) ''.'' # exchange_names rest"
  by (simp_all add: exchange_names_def)

lemma lookup_answers_Pref:
  "lookup_answers dt nameServer ipMode (PrefAnswer a pref # rest) (servers, trace, mxMod, log) =
     Returns out \<Longrightarrow>
   \<exists>ips tr m1 log1.
     lookupIPs dt mxMod log (TrimSuffix (ans_Answer a) ''.'') nameServer ipMode =
       Returns ((ips, tr), m1, log1) \<and>
     lookup_answers dt nameServer ipMode rest
       (servers @ [\<lparr>Name = TrimSuffix (ans_Answer a) ''.'', Type = ans_Type a, Class = ans_Class a,
                    Preference = pref, mx_IPv4Addresses = IPv4Addresses ips,
                    mx_IPv6Addresses = IPv6Addresses ips, TTL = ans_TTL a\<rparr>],
        trace @ tr, m1, log1) = Returns out"
  by (cases "lookupIPs dt mxMod log (TrimSuffix (ans_Answer a) ''.'') nameServer ipMode")
     (auto simp: Let_def)

lemma lookup_answers_structure:
  "lookup_answers dt nameServer ipMode answers (servers, trace, mxMod, log) =
     Returns (servers', trace', mxMod', log') \<Longrightarrow>
   \<exists>calls. log' = log @ calls \<and>
     trace' = trace @ concat (map trace_of (responses dt log calls)) \<and>
     map Name servers' = map Name servers @ exchange_names answers \<and>
     set (map fst calls) \<subseteq> set (exchange_names answers) \<and>
     length calls \<le> length (exchange_names answers)"
proof (induction answers arbitrary: servers trace mxMod log)
  case Nil
  then show ?case by (simp add: exchange_names_simps)
next
  case (Cons ans rest)
  show ?case
  proof (cases ans)
    case (OtherAnswer a)
    with Cons.prems have "lookup_answers dt nameServer ipMode rest (servers, trace, mxMod, log) =
        Returns (servers', trace', mxMod', log')" by simp
    from Cons.IH [OF this] show ?thesis
      by (simp add: OtherAnswer exchange_names_simps)
  next
    case (PrefAnswer a pref)
    let ?n = "TrimSuffix (ans_Answer a) ''.''"
    let ?call = "(?n, nameServer, basic_IsIterative (BasicLookupModule mxMod),
                  IPv4Lookup mxMod, IPv6Lookup mxMod)"
    from Cons.prems PrefAnswer lookup_answers_Pref [of dt nameServer ipMode a pref rest servers trace mxMod log]
    obtain ips tr m1 log1 where
      l: "lookupIPs dt mxMod log ?n nameServer ipMode = Returns ((ips, tr), m1, log1)" and
      r: "lookup_answers dt nameServer ipMode rest
           (servers @ [\<lparr>Name = ?n, Type = ans_Type a, Class = ans_Class a,
                    Preference = pref, mx_IPv4Addresses = IPv4Addresses ips,
                    mx_IPv6Addresses = IPv6Addresses ips, TTL = ans_TTL a\<rparr>],
            trace @ tr, m1, log1) = Returns (servers', trace', mxMod', log')"
      by blast
    from Cons.IH [OF r] obtain calls where
      c: "log' = log1 @ calls"
         "trace' = (trace @ tr) @ concat (map trace_of (responses dt log1 calls))"
         "map Name servers' = map Name (servers @ [\<lparr>Name = ?n, Type = ans_Type a, Class = ans_Class a,
                    Preference = pref, mx_IPv4Addresses = IPv4Addresses ips,
                    mx_IPv6Addresses = IPv6Addresses ips, TTL = ans_TTL a\<rparr>]) @ exchange_names rest"
         "set (map fst calls) \<subseteq> set (exchange_names rest)"
         "length calls \<le> length (exchange_names rest)"
      by blast
    from lookupIPs_Returns [OF l]
    have "(tr = [] \<and> log1 = log) \<or> (log1 = log @ [?call] \<and> tr = trace_of (dt log ?call))"
      by blast
    then show ?thesis
    proof
      assume "tr = [] \<and> log1 = log"
      with c show ?thesis
        by (intro exI [of _ calls]) (auto simp: PrefAnswer exchange_names_simps)
    next
      assume "log1 = log @ [?call] \<and> tr = trace_of (dt log ?call)"
      with c show ?thesis
        by (intro exI [of _ "?call # calls"]) (auto simp: PrefAnswer exchange_names_simps)
    qed
  qed
qed

lemma lookup_answers_total:
  "CacheHash mxMod = Some ch \<Longrightarrow>
   \<exists>servers' trace' mxMod' log' ch'.
     lookup_answers dt nameServer ipMode answers (servers, trace, mxMod, log) =
       Returns (servers', trace', mxMod', log') \<and> CacheHash mxMod' = Some ch'"
proof (induction answers arbitrary: servers trace mxMod log ch)
  case Nil
  then show ?case by simp
next
  case (Cons ans rest)
  show ?case
  proof (cases ans)
    case (OtherAnswer a)
    with Cons.IH [OF Cons.prems] show ?thesis by simp
  next
    case (PrefAnswer a pref)
    from lookupIPs_total [OF Cons.prems, of dt log "TrimSuffix (ans_Answer a) ''.''" nameServer ipMode]
    obtain ips tr m1 log1 ch1 where
      l: "lookupIPs dt mxMod log (TrimSuffix (ans_Answer a) ''.'') nameServer ipMode =
            Returns ((ips, tr), m1, log1)" and c1: "CacheHash m1 = Some ch1"
      by blast
    from Cons.IH [OF c1] show ?thesis
      by (simp add: PrefAnswer l Let_def)
  qed
qed


lemma lookupIPs_no_addresses:
  assumes af: "\<forall>log ns it v4 v6. failed (dt log (n, ns, it, v4, v6))"
    and l: "lookupIPs dt mxMod log name nameServer ipMode = Returns ((ips, tr), m1, log1)"
    and c: "CacheHash mxMod = Some ch"
    and inv: "\<forall>v. (n, v) \<in> set (entries ch) \<longrightarrow> v = \<lparr>IPv4Addresses = [], IPv6Addresses = []\<rparr>"
  shows "(name = n \<longrightarrow> ips = \<lparr>IPv4Addresses = [], IPv6Addresses = []\<rparr>) \<and>
    (\<exists>ch1. CacheHash m1 = Some ch1 \<and>
       (\<forall>v. (n, v) \<in> set (entries ch1) \<longrightarrow> v = \<lparr>IPv4Addresses = [], IPv6Addresses = []\<rparr>))"
proof -
  let ?e = "\<lparr>IPv4Addresses = [], IPv6Addresses = []\<rparr>"
  let ?call = "(name, nameServer, basic_IsIterative (BasicLookupModule mxMod),
                IPv4Lookup mxMod, IPv6Lookup mxMod)"
  from lookupIPs_Returns [OF l] c
  consider
    (hit) "fst (CacheHash_Get ch name) = Some ips"
          "m1 = mxMod\<lparr>CacheHash := Some (snd (CacheHash_Get ch name))\<rparr>"
  | (miss) "fst (CacheHash_Get ch name) = None"
          "failed (dt log ?call) \<longrightarrow> ips = ?e"
          "m1 = mxMod\<lparr>CacheHash := Some (CacheHash_Upsert ch name ips)\<rparr>"
    by auto
  then show ?thesis
  proof cases
    case hit
    from Get_hit [OF hit(1)] have "(name, ips) \<in> set (entries ch)" by simp
    with inv have a: "name = n \<longrightarrow> ips = ?e" by blast
    have "\<forall>v. (n, v) \<in> set (entries (snd (CacheHash_Get ch name))) \<longrightarrow> v = ?e"
      using inv Get_entries [of ch name] by blast
    with a hit(2) show ?thesis by simp
  next
    case miss
    have a: "name = n \<longrightarrow> ips = ?e"
      using af miss(2) by blast
    have "\<forall>v. (n, v) \<in> set (entries (CacheHash_Upsert ch name ips)) \<longrightarrow> v = ?e"
      using inv a Upsert_entries [of ch name ips] by blast
    with a miss(3) show ?thesis by simp
  qed
qed

lemma lookup_answers_no_addresses:
  assumes af: "\<forall>log ns it v4 v6. failed (dt log (n, ns, it, v4, v6))"
  shows "lookup_answers dt nameServer ipMode answers (servers, trace, mxMod, log) =
       Returns (servers', trace', mxMod', log') \<Longrightarrow>
     CacheHash mxMod = Some ch \<Longrightarrow>
     \<forall>v. (n, v) \<in> set (entries ch) \<longrightarrow> v = \<lparr>IPv4Addresses = [], IPv6Addresses = []\<rparr> \<Longrightarrow>
     \<forall>rec \<in> set servers. Name rec = n \<longrightarrow> mx_IPv4Addresses rec = [] \<and> mx_IPv6Addresses rec = [] \<Longrightarrow>
     \<forall>rec \<in> set servers'. Name rec = n \<longrightarrow> mx_IPv4Addresses rec = [] \<and> mx_IPv6Addresses rec = []"
proof (induction answers arbitrary: servers trace mxMod log ch)
  case Nil
  then show ?case by simp
next
  case (Cons ans rest)
  show ?case
  proof (cases ans)
    case (OtherAnswer a)
    with Cons.prems(1) have "lookup_answers dt nameServer ipMode rest (servers, trace, mxMod, log) =
        Returns (servers', trace', mxMod', log')" by simp
    from Cons.IH [OF this Cons.prems(2,3,4)] show ?thesis .
  next
    case (PrefAnswer a pref)
    let ?n = "TrimSuffix (ans_Answer a) ''.''"
    from Cons.prems(1) PrefAnswer
      lookup_answers_Pref [of dt nameServer ipMode a pref rest servers trace mxMod log]
    obtain ips tr m1 log1 where
      l: "lookupIPs dt mxMod log ?n nameServer ipMode = Returns ((ips, tr), m1, log1)" and
      r: "lookup_answers dt nameServer ipMode rest
           (servers @ [\<lparr>Name = ?n, Type = ans_Type a, Class = ans_Class a,
                    Preference = pref, mx_IPv4Addresses = IPv4Addresses ips,
                    mx_IPv6Addresses = IPv6Addresses ips, TTL = ans_TTL a\<rparr>],
            trace @ tr, m1, log1) = Returns (servers', trace', mxMod', log')"
      by blast
    from lookupIPs_no_addresses [OF af l Cons.prems(2,3)] obtain ch1 where
      e: "?n = n \<longrightarrow> ips = \<lparr>IPv4Addresses = [], IPv6Addresses = []\<rparr>" and
      c1: "CacheHash m1 = Some ch1" and
      i1: "\<forall>v. (n, v) \<in> set (entries ch1) \<longrightarrow> v = \<lparr>IPv4Addresses = [], IPv6Addresses = []\<rparr>"
      by blast
    have s1: "\<forall>rec \<in> set (servers @ [\<lparr>Name = ?n, Type = ans_Type a, Class = ans_Class a,
                    Preference = pref, mx_IPv4Addresses = IPv4Addresses ips,
                    mx_IPv6Addresses = IPv6Addresses ips, TTL = ans_TTL a\<rparr>]).
        Name rec = n \<longrightarrow> mx_IPv4Addresses rec = [] \<and> mx_IPv6Addresses rec = []"
      using Cons.prems(4) e by auto
    from Cons.IH [OF r c1 i1 s1] show ?thesis .
  qed
qed

lemma Lookup_primary_failed:
  "primary_query dl h r mxMod lookupName nameServer rnd = Returns ((res, trace, status, err), r', h') \<Longrightarrow>
   status \<noteq> StatusNoError \<or> err \<noteq> None \<Longrightarrow>
   Lookup p dl dt h r mxMod log lookupName nameServer rnd =
     Returns ((None, trace, status, err), mxMod, log)"
  by (auto simp: Lookup_def)

lemma Lookup_primary_ok:
  "primary_query dl h r mxMod lookupName nameServer rnd =
     Returns ((Some sqr, trace, StatusNoError, None), r', h') \<Longrightarrow>
   Lookup p dl dt h r mxMod log lookupName nameServer rnd =
     and_then (lookup_answers dt nameServer
                 (GetIPVersionMode p (IPv4Lookup mxMod) (IPv6Lookup mxMod)) (Answers sqr)
                 ([], trace, mxMod, log))
       (\<lambda>(servers, trace1, mxMod1, log1).
          Returns ((Some \<lparr>Servers = servers\<rparr>, trace1, StatusNoError, None), mxMod1, log1))"
  by (simp add: Lookup_def)

lemma Lookup_nil_result:
  assumes "Lookup p dl dt h r mxMod log lookupName nameServer rnd = Returns ((None, tr, st, e), m, l)"
  shows "\<exists>res r' h'. primary_query dl h r mxMod lookupName nameServer rnd =
            Returns ((res, tr, st, e), r', h') \<and> (st \<noteq> StatusNoError \<or> e \<noteq> None)"
proof (cases "primary_query dl h r mxMod lookupName nameServer rnd")
  case (Fatal x)
  with assms show ?thesis by (simp add: Lookup_def)
next
  case (Panic x)
  with assms show ?thesis by (simp add: Lookup_def)
next
  case (Returns x)
  obtain res trace status err r' h' where x: "x = ((res, trace, status, err), r', h')"
    by (cases x) auto
  show ?thesis
  proof (cases "status \<noteq> StatusNoError \<or> err \<noteq> None")
    case True
    from Lookup_primary_failed [OF Returns [unfolded x] True, of p dt log] assms
    show ?thesis using Returns x True by auto
  next
    case False
    then have ok: "status = StatusNoError" "err = None" by auto
    show ?thesis
    proof (cases res)
      case None
      with assms Returns x ok show ?thesis by (simp add: Lookup_def)
    next
      case (Some sqr)
      let ?la = "lookup_answers dt nameServer
                 (GetIPVersionMode p (IPv4Lookup mxMod) (IPv6Lookup mxMod)) (Answers sqr)
                 ([], trace, mxMod, log)"
      from Returns x ok Some have
        "primary_query dl h r mxMod lookupName nameServer rnd =
           Returns ((Some sqr, trace, StatusNoError, None), r', h')" by simp
      from Lookup_primary_ok [OF this, of p dt log] assms
      show ?thesis by (cases ?la) auto
    qed
  qed
qed

lemma subseqs_Cons_mem:
  "ys \<in> set (subseqs xs) \<Longrightarrow> ys \<in> set (subseqs (x # xs))"
  "ys \<in> set (subseqs xs) \<Longrightarrow> x # ys \<in> set (subseqs (x # xs))"
  by (simp_all add: Let_def)

lemma subseqs_subset: "ys \<in> set (subseqs xs) \<Longrightarrow> set ys \<subseteq> set xs"
  using subseqs_powset [of xs] by blast

lemma subseqs_all_distinct:
  "ys \<in> set (subseqs xs) \<Longrightarrow> distinct xs \<Longrightarrow> set xs \<subseteq> set ys \<Longrightarrow> ys = xs"
proof (induction xs arbitrary: ys)
  case Nil
  then show ?case by simp
next
  case (Cons x xs)
  from Cons.prems(1) consider
    (skip) "ys \<in> set (subseqs xs)"
  | (take) ys' where "ys = x # ys'" "ys' \<in> set (subseqs xs)"
    by (auto simp: Let_def)
  then show ?case
  proof cases
    case skip
    then have "set ys \<subseteq> set xs" by (rule subseqs_subset)
    with Cons.prems(2,3) show ?thesis by auto
  next
    case take
    have "set xs \<subseteq> set ys'"
      using Cons.prems(2,3) take(1) by auto
    from Cons.IH [OF take(2) _ this] Cons.prems(2) take(1) show ?thesis by simp
  qed
qed

lemma lookup_answers_calls:
  "lookup_answers dt nameServer ipMode answers (servers, trace, mxMod, log) =
     Returns (servers', trace', mxMod', log') \<Longrightarrow>
   CacheHash mxMod = Some ch \<Longrightarrow>
   \<exists>names.
     log' = log @ map (\<lambda>n. (n, nameServer, basic_IsIterative (BasicLookupModule mxMod),
                              IPv4Lookup mxMod, IPv6Lookup mxMod)) names \<and>
     names \<in> set (subseqs (exchange_names answers)) \<and>
     (\<forall>n \<in> set (exchange_names answers). fst (CacheHash_Get ch n) = None \<longrightarrow> n \<in> set names) \<and>
     ((\<forall>n \<in> set (exchange_names answers). fst (CacheHash_Get ch n) \<noteq> None) \<longrightarrow> names = [])"
proof (induction answers arbitrary: servers trace mxMod log ch)
  case Nil
  then show ?case by (simp add: exchange_names_simps)
next
  case (Cons ans rest)
  show ?case
  proof (cases ans)
    case (OtherAnswer a)
    with Cons.prems(1) have "lookup_answers dt nameServer ipMode rest (servers, trace, mxMod, log) =
        Returns (servers', trace', mxMod', log')" by simp
    from Cons.IH [OF this Cons.prems(2)] show ?thesis
      by (simp add: OtherAnswer exchange_names_simps)
  next
    case (PrefAnswer a pref)
    let ?k = "TrimSuffix (ans_Answer a) ''.''"
    let ?mk = "\<lambda>n. (n, nameServer, basic_IsIterative (BasicLookupModule mxMod),
                     IPv4Lookup mxMod, IPv6Lookup mxMod)"
    have xs: "exchange_names (ans # rest) = ?k # exchange_names rest"
      by (simp add: PrefAnswer exchange_names_simps)
    from Cons.prems(1) PrefAnswer
      lookup_answers_Pref [of dt nameServer ipMode a pref rest servers trace mxMod log]
    obtain ips tr m1 log1 where
      l: "lookupIPs dt mxMod log ?k nameServer ipMode = Returns ((ips, tr), m1, log1)" and
      r: "lookup_answers dt nameServer ipMode rest
           (servers @ [\<lparr>Name = ?k, Type = ans_Type a, Class = ans_Class a,
                    Preference = pref, mx_IPv4Addresses = IPv4Addresses ips,
                    mx_IPv6Addresses = IPv6Addresses ips, TTL = ans_TTL a\<rparr>],
            trace @ tr, m1, log1) = Returns (servers', trace', mxMod', log')"
      by blast
    from lookupIPs_Returns [OF l] Cons.prems(2)
    consider
      (hit) "fst (CacheHash_Get ch ?k) = Some ips" "log1 = log"
            "m1 = mxMod\<lparr>CacheHash := Some (snd (CacheHash_Get ch ?k))\<rparr>"
    | (miss) "fst (CacheHash_Get ch ?k) = None" "log1 = log @ [?mk ?k]"
            "m1 = mxMod\<lparr>CacheHash := Some (CacheHash_Upsert ch ?k ips)\<rparr>"
      by auto
    then show ?thesis
    proof cases
      case hit
      let ?ch1 = "snd (CacheHash_Get ch ?k)"
      have c1: "CacheHash m1 = Some ?ch1" by (simp add: hit(3))
      from Cons.IH [OF r c1] obtain names where
        n: "log' = log1 @ map (\<lambda>n. (n, nameServer, basic_IsIterative (BasicLookupModule m1),
                              IPv4Lookup m1, IPv6Lookup m1)) names"
           "names \<in> set (subseqs (exchange_names rest))"
           "\<forall>n \<in> set (exchange_names rest). fst (CacheHash_Get ?ch1 n) = None \<longrightarrow> n \<in> set names"
           "(\<forall>n \<in> set (exchange_names rest). fst (CacheHash_Get ?ch1 n) \<noteq> None) \<longrightarrow> names = []"
        by blast
      have 1: "log' = log @ map ?mk names"
        using n(1) by (simp add: hit(2,3))
      have 2: "names \<in> set (subseqs (exchange_names (ans # rest)))"
        using n(2) unfolding xs by (rule subseqs_Cons_mem(1))
      have 3: "\<forall>n \<in> set (exchange_names (ans # rest)).
                 fst (CacheHash_Get ch n) = None \<longrightarrow> n \<in> set names"
        using n(3) hit(1) by (auto simp: xs Get_keeps)
      have 4: "(\<forall>n \<in> set (exchange_names (ans # rest)). fst (CacheHash_Get ch n) \<noteq> None) \<longrightarrow>
                 names = []"
        using n(4) by (simp add: xs Get_keeps)
      show ?thesis using 1 2 3 4 by blast
    next
      case miss
      let ?ch1 = "CacheHash_Upsert ch ?k ips"
      have c1: "CacheHash m1 = Some ?ch1" by (simp add: miss(3))
      from Cons.IH [OF r c1] obtain names where
        n: "log' = log1 @ map (\<lambda>n. (n, nameServer, basic_IsIterative (BasicLookupModule m1),
                              IPv4Lookup m1, IPv6Lookup m1)) names"
           "names \<in> set (subseqs (exchange_names rest))"
           "\<forall>n \<in> set (exchange_names rest). fst (CacheHash_Get ?ch1 n) = None \<longrightarrow> n \<in> set names"
        by blast
      have 1: "log' = log @ map ?mk (?k # names)"
        using n(1) by (simp add: miss(2,3))
      have 2: "?k # names \<in> set (subseqs (exchange_names (ans # rest)))"
        using n(2) unfolding xs by (rule subseqs_Cons_mem(2))
      have 3: "\<forall>n \<in> set (exchange_names (ans # rest)).
                 fst (CacheHash_Get ch n) = None \<longrightarrow> n \<in> set (?k # names)"
      proof (intro ballI impI)
        fix n assume a: "n \<in> set (exchange_names (ans # rest))" "fst (CacheHash_Get ch n) = None"
        show "n \<in> set (?k # names)"
        proof (cases "n = ?k")
          case True
          then show ?thesis by simp
        next
          case False
          with a(1) have "n \<in> set (exchange_names rest)" by (simp add: xs)
          moreover have "fst (CacheHash_Get ?ch1 n) = None"
            using False a(2) by (rule Upsert_other_None)
          ultimately show ?thesis using n(3) by simp
        qed
      qed
      have 4: "(\<forall>n \<in> set (exchange_names (ans # rest)). fst (CacheHash_Get ch n) \<noteq> None) \<longrightarrow>
                 ?k # names = []"
        using miss(1) by (auto simp: xs)
      show ?thesis using 1 2 3 4 by blast
    qed
  qed
qed

subsection \<open>Secondary lookups that fail\<close>

lemma primary_query_sample:
  "primary_query mx_lookuper sample_heap_constructed sample_resolver m ''example.com''
     ''192.0.2.53:53'' 0 =
   (if basic_IsIterative (BasicLookupModule m)
    then IterativeLookup mx_lookuper sample_heap_constructed sample_resolver
           \<lparr>q_Name = ''example.com'', q_Type = TypeMX, q_Class = ClassINET\<rparr> 0
    else Returns ((Some \<lparr>Answers = [mx_answer ''example.com'' ''mx1.example.com.'' 10,
                                     mx_answer ''example.com'' ''mx2.example.com.'' 20],
                        Additional = [], Authorities = [], Resolver = ''192.0.2.53:53''\<rparr>,
                   [\<lparr>step_Depth = 1, step_NameServer = ''192.0.2.53:53'',
                      step_Name = ''example.com''\<rparr>],
                   StatusNoError, None), sample_resolver, sample_heap_constructed))"
  by (simp add: primary_query_def ExternalLookup_def mx_lookuper_def)

lemma TrimSuffix_mx:
  "TrimSuffix ''mx1.example.com.'' ''.'' = ''mx1.example.com''"
  "TrimSuffix ''mx2.example.com.'' ''.'' = ''mx2.example.com''"
  by (simp_all add: TrimSuffix_def)

lemma Lookup_warm:
  "Lookup sample_pkg mx_lookuper answering_dt sample_heap_constructed sample_resolver warm_module []
     ''example.com'' ''192.0.2.53:53'' 0 =
   Returns
    ((Some \<lparr>Servers =
        [\<lparr>Name = ''mx1.example.com'', Type = ''MX'', Class = ''IN'', Preference = 10,
           mx_IPv4Addresses = [''192.0.2.10''], mx_IPv6Addresses = [], TTL = 300\<rparr>,
         \<lparr>Name = ''mx2.example.com'', Type = ''MX'', Class = ''IN'', Preference = 20,
           mx_IPv4Addresses = [''192.0.2.25''], mx_IPv6Addresses = [], TTL = 300\<rparr>]\<rparr>,
      [\<lparr>step_Depth = 1, step_NameServer = ''192.0.2.53:53'', step_Name = ''example.com''\<rparr>,
       \<lparr>step_Depth = 1, step_NameServer = ''192.0.2.53:53'', step_Name = ''mx2.example.com''\<rparr>],
      StatusNoError, None),
     ready_module\<lparr>CacheHash := Some \<lparr>maxLen = 2, entries =
        [(''mx2.example.com'', \<lparr>IPv4Addresses = [''192.0.2.25''], IPv6Addresses = []\<rparr>),
         (''mx1.example.com'', \<lparr>IPv4Addresses = [''192.0.2.10''], IPv6Addresses = []\<rparr>)]\<rparr>\<rparr>,
     [(''mx2.example.com'', ''192.0.2.53:53'', False, True, False)])"
  by (simp add: Lookup_def primary_query_sample warm_module_def ready_module_def mx_answer_def
      TrimSuffix_mx lookupIPs_def CacheHash_Get_def CacheHash_Upsert_def answering_dt_def Let_def)


text \<open>
  Claim C7. A targeted lookup that is really issued (the name is not cached) and comes
  back with a non-success Status or a nil result gives empty IPv4 and IPv6 addresses.
  When the primary MX query succeeds, \<open>Lookup\<close> returns a result with Status success and
  one record per exchange in the order of the answers, and the records of every
  exchange whose targeted lookups keep failing (and for which the cache holds no
  addresses) have no addresses. When the primary query comes back with a non-success
  Status or an error, \<open>Lookup\<close> returns a nil result with that trace, Status and error;
  and this is the only way \<open>Lookup\<close> returns a nil result. \<open>LookupIPs\<close> of the earlier
  module treats a failed targeted lookup the same way.
\<close>

theorem secondary_failure_is_no_addresses:
  "(CacheHash mxMod = Some ch \<and> fst (CacheHash_Get ch name) = None \<and>
    failed (dt log (name, nameServer, basic_IsIterative (BasicLookupModule mxMod),
                    IPv4Lookup mxMod, IPv6Lookup mxMod)) \<longrightarrow>
      lookupIPs dt mxMod log name nameServer ipMode =
        Returns ((no_addresses,
                  trace_of (dt log (name, nameServer, basic_IsIterative (BasicLookupModule mxMod),
                                    IPv4Lookup mxMod, IPv6Lookup mxMod))),
                 mxMod\<lparr>CacheHash := Some (CacheHash_Upsert ch name no_addresses)\<rparr>,
                 log @ [(name, nameServer, basic_IsIterative (BasicLookupModule mxMod),
                         IPv4Lookup mxMod, IPv6Lookup mxMod)])) \<and>
   (\<forall>res trace status err r' h'.
      primary_query dl h r mxMod lookupName nameServer rnd =
        Returns ((res, trace, status, err), r', h') \<and>
      (status \<noteq> StatusNoError \<or> err \<noteq> None) \<longrightarrow>
      Lookup p dl dt h r mxMod log lookupName nameServer rnd =
        Returns ((None, trace, status, err), mxMod, log)) \<and>
   (\<forall>sqr trace r' h'.
      primary_query dl h r mxMod lookupName nameServer rnd =
        Returns ((Some sqr, trace, StatusNoError, None), r', h') \<and>
      CacheHash mxMod = Some ch \<longrightarrow>
      (\<exists>servers trace' mxMod' log'.
         Lookup p dl dt h r mxMod log lookupName nameServer rnd =
           Returns ((Some \<lparr>Servers = servers\<rparr>, trace', StatusNoError, None), mxMod', log') \<and>
         map Name servers = exchange_names (Answers sqr) \<and>
         (\<forall>n. (\<forall>log ns it v4 v6. failed (dt log (n, ns, it, v4, v6))) \<and>
              (\<forall>v. (n, v) \<in> set (entries ch) \<longrightarrow> v = no_addresses) \<longrightarrow>
              (\<forall>rec \<in> set servers.
                 Name rec = n \<longrightarrow> mx_IPv4Addresses rec = [] \<and> mx_IPv6Addresses rec = [])))) \<and>
   (\<forall>tr st e m l.
      Lookup p dl dt h r mxMod log lookupName nameServer rnd = Returns ((None, tr, st, e), m, l) \<longrightarrow>
      (\<exists>res r' h'. primary_query dl h r mxMod lookupName nameServer rnd =
                       Returns ((res, tr, st, e), r', h') \<and>
                     (st \<noteq> StatusNoError \<or> e \<noteq> None))) \<and>
   (CacheHash mx = Some ch0 \<and> fst (CacheHash_Get ch0 name) = None \<and>
    failed (dt0 log0 (name, nameServer, lookupIpv4, lookupIpv6)) \<longrightarrow>
      LookupIPs dt0 (Some mx) log0 name nameServer lookupIpv4 lookupIpv6 =
        Returns ((no_addresses, trace_of (dt0 log0 (name, nameServer, lookupIpv4, lookupIpv6))),
                 Some (mx\<lparr>CacheHash := Some (CacheHash_Add ch0 name no_addresses)\<rparr>),
                 log0 @ [(name, nameServer, lookupIpv4, lookupIpv6)]))"
proof -
  let ?L = "Lookup p dl dt h r mxMod log lookupName nameServer rnd"
  let ?P = "primary_query dl h r mxMod lookupName nameServer rnd"
  let ?call = "(name, nameServer, basic_IsIterative (BasicLookupModule mxMod),
                IPv4Lookup mxMod, IPv6Lookup mxMod)"
  have a: "CacheHash mxMod = Some ch \<and> fst (CacheHash_Get ch name) = None \<and> failed (dt log ?call) \<longrightarrow>
      lookupIPs dt mxMod log name nameServer ipMode =
        Returns ((no_addresses, trace_of (dt log ?call)),
                 mxMod\<lparr>CacheHash := Some (CacheHash_Upsert ch name no_addresses)\<rparr>,
                 log @ [?call])"
    using lookupIPs_miss_failed [where dt = dt and log = log and mxMod = mxMod and ch = ch
        and name = name and nameServer = nameServer and ipMode = ipMode, OF _ _ refl]
    by (auto simp: no_addresses_def)
  have b: "\<forall>res trace status err r' h'.
      ?P = Returns ((res, trace, status, err), r', h') \<and>
      (status \<noteq> StatusNoError \<or> err \<noteq> None) \<longrightarrow>
      ?L = Returns ((None, trace, status, err), mxMod, log)"
    using Lookup_primary_failed [of dl h r mxMod lookupName nameServer rnd] by blast
  have c: "\<exists>servers trace' mxMod' log'.
         ?L = Returns ((Some \<lparr>Servers = servers\<rparr>, trace', StatusNoError, None), mxMod', log') \<and>
         map Name servers = exchange_names (Answers sqr) \<and>
         (\<forall>n. (\<forall>log ns it v4 v6. failed (dt log (n, ns, it, v4, v6))) \<and>
              (\<forall>v. (n, v) \<in> set (entries ch) \<longrightarrow> v = no_addresses) \<longrightarrow>
              (\<forall>rec \<in> set servers.
                 Name rec = n \<longrightarrow> mx_IPv4Addresses rec = [] \<and> mx_IPv6Addresses rec = []))"
    if pq: "?P = Returns ((Some sqr, trace, StatusNoError, None), r', h')"
      and ch: "CacheHash mxMod = Some ch" for sqr trace r' h'
  proof -
    let ?ipMode = "GetIPVersionMode p (IPv4Lookup mxMod) (IPv6Lookup mxMod)"
    from lookup_answers_total [OF ch, of dt nameServer ?ipMode "Answers sqr" "[]" trace log]
    obtain servers trace' mxMod' log' where
      la: "lookup_answers dt nameServer ?ipMode (Answers sqr) ([], trace, mxMod, log) =
             Returns (servers, trace', mxMod', log')"
      by blast
    have L: "?L = Returns ((Some \<lparr>Servers = servers\<rparr>, trace', StatusNoError, None), mxMod', log')"
      by (simp add: Lookup_primary_ok [OF pq] la)
    from lookup_answers_structure [OF la]
    have names: "map Name servers = exchange_names (Answers sqr)" by auto
    have empt: "\<forall>rec \<in> set servers.
                 Name rec = n \<longrightarrow> mx_IPv4Addresses rec = [] \<and> mx_IPv6Addresses rec = []"
      if af: "\<forall>log ns it v4 v6. failed (dt log (n, ns, it, v4, v6))"
        and inv: "\<forall>v. (n, v) \<in> set (entries ch) \<longrightarrow> v = no_addresses" for n
      using lookup_answers_no_addresses [OF af la ch] inv
      by (simp add: no_addresses_def)
    show ?thesis using L names empt by blast
  qed
  have d: "\<forall>tr st e m l. ?L = Returns ((None, tr, st, e), m, l) \<longrightarrow>
      (\<exists>res r' h'. ?P = Returns ((res, tr, st, e), r', h') \<and> (st \<noteq> StatusNoError \<or> e \<noteq> None))"
    using Lookup_nil_result [of p dl dt h r mxMod log lookupName nameServer rnd] by blast
  have e: "CacheHash mx = Some ch0 \<and> fst (CacheHash_Get ch0 name) = None \<and>
    failed (dt0 log0 (name, nameServer, lookupIpv4, lookupIpv6)) \<longrightarrow>
      LookupIPs dt0 (Some mx) log0 name nameServer lookupIpv4 lookupIpv6 =
        Returns ((no_addresses, trace_of (dt0 log0 (name, nameServer, lookupIpv4, lookupIpv6))),
                 Some (mx\<lparr>CacheHash := Some (CacheHash_Add ch0 name no_addresses)\<rparr>),
                 log0 @ [(name, nameServer, lookupIpv4, lookupIpv6)])"
    using LookupIPs_miss_failed [where dt = dt0 and log = log0 and mx = mx and ch = ch0
        and name = name and nameServer = nameServer]
    by (auto simp: no_addresses_def)
  show ?thesis
    apply (intro conjI)
        apply (rule a)
       apply (rule b)
      apply (intro allI impI)
      apply (erule conjE)
      apply (erule (1) c)
     apply (rule d)
    apply (rule e)
    done
qed

subsection \<open>Cache hits and the order of traces\<close>

lemma failed_timeout_dt: "failed (timeout_dt log call)"
  by (simp add: failed_def timeout_dt_def)

lemma Lookup_cold:
  "Lookup sample_pkg mx_lookuper timeout_dt sample_heap_constructed sample_resolver ready_module []
     ''example.com'' ''192.0.2.53:53'' 0 =
   Returns
    ((Some \<lparr>Servers =
        [\<lparr>Name = ''mx1.example.com'', Type = ''MX'', Class = ''IN'', Preference = 10,
           mx_IPv4Addresses = [], mx_IPv6Addresses = [], TTL = 300\<rparr>,
         \<lparr>Name = ''mx2.example.com'', Type = ''MX'', Class = ''IN'', Preference = 20,
           mx_IPv4Addresses = [], mx_IPv6Addresses = [], TTL = 300\<rparr>]\<rparr>,
      [\<lparr>step_Depth = 1, step_NameServer = ''192.0.2.53:53'', step_Name = ''example.com''\<rparr>,
       \<lparr>step_Depth = 1, step_NameServer = ''192.0.2.53:53'', step_Name = ''mx1.example.com''\<rparr>,
       \<lparr>step_Depth = 1, step_NameServer = ''192.0.2.53:53'', step_Name = ''mx2.example.com''\<rparr>],
      StatusNoError, None),
     ready_module\<lparr>CacheHash := Some \<lparr>maxLen = 2, entries =
        [(''mx2.example.com'', no_addresses), (''mx1.example.com'', no_addresses)]\<rparr>\<rparr>,
     [(''mx1.example.com'', ''192.0.2.53:53'', False, True, False),
      (''mx2.example.com'', ''192.0.2.53:53'', False, True, False)])"
  by (simp add: Lookup_def primary_query_sample ready_module_def mx_answer_def
      TrimSuffix_mx lookupIPs_def CacheHash_Get_def CacheHash_Upsert_def timeout_dt_def Let_def
      no_addresses_def)

text \<open>
  The sample module with an empty cache, a Lookuper answering two exchanges and targeted
  lookups that time out: both records come back without addresses and with Status
  success; with a Lookuper that answers SERVFAIL the result is nil with that Status.
\<close>

theorem secondary_failure_is_no_addresses_witness:
  "lookupIPs timeout_dt ready_module [] ''mx1.example.com'' ''192.0.2.53:53'' 0 =
     Returns ((no_addresses,
               [\<lparr>step_Depth = 1, step_NameServer = ''192.0.2.53:53'',
                  step_Name = ''mx1.example.com''\<rparr>]),
              ready_module\<lparr>CacheHash := Some \<lparr>maxLen = 2, entries =
                 [(''mx1.example.com'', no_addresses)]\<rparr>\<rparr>,
              [(''mx1.example.com'', ''192.0.2.53:53'', False, True, False)]) \<and>
   Lookup sample_pkg servfail_lookuper timeout_dt sample_heap_constructed sample_resolver
       ready_module [] ''example.com'' ''192.0.2.53:53'' 0 =
     Returns ((None,
               [\<lparr>step_Depth = 1, step_NameServer = ''192.0.2.53:53'', step_Name = ''example.com''\<rparr>],
               StatusServFail, None), ready_module, []) \<and>
   Lookup sample_pkg mx_lookuper timeout_dt sample_heap_constructed sample_resolver ready_module []
     ''example.com'' ''192.0.2.53:53'' 0 =
   Returns
    ((Some \<lparr>Servers =
        [\<lparr>Name = ''mx1.example.com'', Type = ''MX'', Class = ''IN'', Preference = 10,
           mx_IPv4Addresses = [], mx_IPv6Addresses = [], TTL = 300\<rparr>,
         \<lparr>Name = ''mx2.example.com'', Type = ''MX'', Class = ''IN'', Preference = 20,
           mx_IPv4Addresses = [], mx_IPv6Addresses = [], TTL = 300\<rparr>]\<rparr>,
      [\<lparr>step_Depth = 1, step_NameServer = ''192.0.2.53:53'', step_Name = ''example.com''\<rparr>,
       \<lparr>step_Depth = 1, step_NameServer = ''192.0.2.53:53'', step_Name = ''mx1.example.com''\<rparr>,
       \<lparr>step_Depth = 1, step_NameServer = ''192.0.2.53:53'', step_Name = ''mx2.example.com''\<rparr>],
      StatusNoError, None),
     ready_module\<lparr>CacheHash := Some \<lparr>maxLen = 2, entries =
        [(''mx2.example.com'', no_addresses), (''mx1.example.com'', no_addresses)]\<rparr>\<rparr>,
     [(''mx1.example.com'', ''192.0.2.53:53'', False, True, False),
      (''mx2.example.com'', ''192.0.2.53:53'', False, True, False)])"
proof -
  let ?ch = "\<lparr>maxLen = 2, entries = []\<rparr>"
  note T = secondary_failure_is_no_addresses [of ready_module ?ch "''mx1.example.com''" timeout_dt "[]"
      "''192.0.2.53:53''" 0 servfail_lookuper sample_heap_constructed sample_resolver
      "''example.com''" 0 sample_pkg]
  have h1: "CacheHash ready_module = Some ?ch \<and> fst (CacheHash_Get ?ch ''mx1.example.com'') = None \<and>
      failed (timeout_dt [] (''mx1.example.com'', ''192.0.2.53:53'',
        basic_IsIterative (BasicLookupModule ready_module), IPv4Lookup ready_module,
        IPv6Lookup ready_module))"
    by (simp add: ready_module_def CacheHash_Get_def failed_timeout_dt)
  from T [THEN conjunct1, rule_format, OF h1]
  have a: "lookupIPs timeout_dt ready_module [] ''mx1.example.com'' ''192.0.2.53:53'' 0 =
     Returns ((no_addresses,
               [\<lparr>step_Depth = 1, step_NameServer = ''192.0.2.53:53'',
                  step_Name = ''mx1.example.com''\<rparr>]),
              ready_module\<lparr>CacheHash := Some \<lparr>maxLen = 2, entries =
                 [(''mx1.example.com'', no_addresses)]\<rparr>\<rparr>,
              [(''mx1.example.com'', ''192.0.2.53:53'', False, True, False)])"
    by (simp add: trace_of_def timeout_dt_def CacheHash_Upsert_def) (simp add: ready_module_def)
  have h2: "primary_query servfail_lookuper sample_heap_constructed sample_resolver ready_module
        ''example.com'' ''192.0.2.53:53'' 0 =
      Returns ((None,
               [\<lparr>step_Depth = 1, step_NameServer = ''192.0.2.53:53'', step_Name = ''example.com''\<rparr>],
               StatusServFail, None), sample_resolver, sample_heap_constructed) \<and>
      (StatusServFail \<noteq> StatusNoError \<or> (None :: error option) \<noteq> None)"
    by (simp add: primary_query_def ExternalLookup_def servfail_lookuper_def ready_module_def)
  from T [THEN conjunct2, THEN conjunct1, rule_format, OF h2]
  have b: "Lookup sample_pkg servfail_lookuper timeout_dt sample_heap_constructed sample_resolver
       ready_module [] ''example.com'' ''192.0.2.53:53'' 0 =
     Returns ((None,
               [\<lparr>step_Depth = 1, step_NameServer = ''192.0.2.53:53'', step_Name = ''example.com''\<rparr>],
               StatusServFail, None), ready_module, [])" .
  show ?thesis
    using a b Lookup_cold by simp
qed

text \<open>
  Claim C8. A name the cache holds is answered from the cache, with an empty trace and
  no targeted call. A name the cache does not hold costs exactly one targeted call, for
  that name, whose trace is returned. In \<open>Lookup\<close> the merged trace is the trace of the
  primary query followed by the traces of the targeted calls that were issued, in the
  order of the calls, and only exchange names are looked up, at most one call each
  answer. With an initialised module and a successful primary query \<open>Lookup\<close> returns,
  and the names it looks up are a subsequence of the exchange names in answer order
  that contains every exchange name the cache does not hold at the start: none when the
  cache holds them all, and all of them in order when it holds none and they are
  distinct.
\<close>

theorem cached_names_skip_lookup_and_traces_in_order:
  "(\<forall>v. CacheHash mxMod = Some ch \<and> fst (CacheHash_Get ch name) = Some v \<longrightarrow>
      lookupIPs dt mxMod log name nameServer ipMode =
        Returns ((v, []), mxMod\<lparr>CacheHash := Some (snd (CacheHash_Get ch name))\<rparr>, log)) \<and>
   (CacheHash mxMod = Some ch \<and> fst (CacheHash_Get ch name) = None \<longrightarrow>
      (\<exists>addrs mxMod1.
         lookupIPs dt mxMod log name nameServer ipMode =
           Returns ((addrs,
                     trace_of (dt log (name, nameServer, basic_IsIterative (BasicLookupModule mxMod),
                                       IPv4Lookup mxMod, IPv6Lookup mxMod))),
                    mxMod1,
                    log @ [(name, nameServer, basic_IsIterative (BasicLookupModule mxMod),
                            IPv4Lookup mxMod, IPv6Lookup mxMod)]))) \<and>
   (\<forall>sqr trace r' h' res trace' st e mxMod' log'.
      primary_query dl h r mxMod lookupName nameServer rnd =
        Returns ((Some sqr, trace, StatusNoError, None), r', h') \<and>
      Lookup p dl dt h r mxMod log lookupName nameServer rnd =
        Returns ((res, trace', st, e), mxMod', log') \<longrightarrow>
      (\<exists>calls. log' = log @ calls \<and>
         trace' = trace @ concat (map trace_of (responses dt log calls)) \<and>
         set (map fst calls) \<subseteq> set (exchange_names (Answers sqr)) \<and>
         length calls \<le> length (exchange_names (Answers sqr)))) \<and>
   (\<forall>sqr trace r' h'.
      primary_query dl h r mxMod lookupName nameServer rnd =
        Returns ((Some sqr, trace, StatusNoError, None), r', h') \<and>
      CacheHash mxMod = Some ch \<longrightarrow>
      (\<exists>servers trace' mxMod' names.
         Lookup p dl dt h r mxMod log lookupName nameServer rnd =
           Returns ((Some \<lparr>Servers = servers\<rparr>, trace', StatusNoError, None), mxMod',
                    log @ map (\<lambda>n. (n, nameServer, basic_IsIterative (BasicLookupModule mxMod),
                                        IPv4Lookup mxMod, IPv6Lookup mxMod)) names) \<and>
         trace' = trace @ concat (map trace_of (responses dt log
                    (map (\<lambda>n. (n, nameServer, basic_IsIterative (BasicLookupModule mxMod),
                                  IPv4Lookup mxMod, IPv6Lookup mxMod)) names))) \<and>
         names \<in> set (subseqs (exchange_names (Answers sqr))) \<and>
         (\<forall>n \<in> set (exchange_names (Answers sqr)).
            fst (CacheHash_Get ch n) = None \<longrightarrow> n \<in> set names) \<and>
         ((\<forall>n \<in> set (exchange_names (Answers sqr)). fst (CacheHash_Get ch n) \<noteq> None) \<longrightarrow>
            names = []) \<and>
         ((\<forall>n \<in> set (exchange_names (Answers sqr)). fst (CacheHash_Get ch n) = None) \<and>
          distinct (exchange_names (Answers sqr)) \<longrightarrow>
            names = exchange_names (Answers sqr))))"
proof -
  let ?call = "(name, nameServer, basic_IsIterative (BasicLookupModule mxMod),
                IPv4Lookup mxMod, IPv6Lookup mxMod)"
  have a: "\<forall>v. CacheHash mxMod = Some ch \<and> fst (CacheHash_Get ch name) = Some v \<longrightarrow>
      lookupIPs dt mxMod log name nameServer ipMode =
        Returns ((v, []), mxMod\<lparr>CacheHash := Some (snd (CacheHash_Get ch name))\<rparr>, log)"
    by (simp add: lookupIPs_hit)
  have b: "\<exists>addrs mxMod1. lookupIPs dt mxMod log name nameServer ipMode =
           Returns ((addrs, trace_of (dt log ?call)), mxMod1, log @ [?call])"
    if c: "CacheHash mxMod = Some ch" and m: "fst (CacheHash_Get ch name) = None"
  proof -
    obtain result trace status err where d: "dt log ?call = (result, trace, status, err)"
      by (cases "dt log ?call") auto
    from lookupIPs_miss [where dt = dt and log = log, OF c m d, of ipMode]
    show ?thesis by (simp add: trace_of_def d)
  qed
  have c: "\<exists>calls. log' = log @ calls \<and>
         trace' = trace @ concat (map trace_of (responses dt log calls)) \<and>
         set (map fst calls) \<subseteq> set (exchange_names (Answers sqr)) \<and>
         length calls \<le> length (exchange_names (Answers sqr))"
    if pq: "primary_query dl h r mxMod lookupName nameServer rnd =
        Returns ((Some sqr, trace, StatusNoError, None), r', h')"
      and L: "Lookup p dl dt h r mxMod log lookupName nameServer rnd =
        Returns ((res, trace', st, e), mxMod', log')"
    for sqr trace r' h' res trace' st e mxMod' log'
  proof -
    let ?la = "lookup_answers dt nameServer
                 (GetIPVersionMode p (IPv4Lookup mxMod) (IPv6Lookup mxMod)) (Answers sqr)
                 ([], trace, mxMod, log)"
    from L Lookup_primary_ok [OF pq, of p dt log]
    obtain servers where "?la = Returns (servers, trace', mxMod', log')"
      by (cases ?la) auto
    from lookup_answers_structure [OF this] show ?thesis by blast
  qed
  have d: "\<exists>servers trace' mxMod' names.
         Lookup p dl dt h r mxMod log lookupName nameServer rnd =
           Returns ((Some \<lparr>Servers = servers\<rparr>, trace', StatusNoError, None), mxMod',
                    log @ map (\<lambda>n. (n, nameServer, basic_IsIterative (BasicLookupModule mxMod),
                                        IPv4Lookup mxMod, IPv6Lookup mxMod)) names) \<and>
         trace' = trace @ concat (map trace_of (responses dt log
                    (map (\<lambda>n. (n, nameServer, basic_IsIterative (BasicLookupModule mxMod),
                                  IPv4Lookup mxMod, IPv6Lookup mxMod)) names))) \<and>
         names \<in> set (subseqs (exchange_names (Answers sqr))) \<and>
         (\<forall>n \<in> set (exchange_names (Answers sqr)).
            fst (CacheHash_Get ch n) = None \<longrightarrow> n \<in> set names) \<and>
         ((\<forall>n \<in> set (exchange_names (Answers sqr)). fst (CacheHash_Get ch n) \<noteq> None) \<longrightarrow>
            names = []) \<and>
         ((\<forall>n \<in> set (exchange_names (Answers sqr)). fst (CacheHash_Get ch n) = None) \<and>
          distinct (exchange_names (Answers sqr)) \<longrightarrow>
            names = exchange_names (Answers sqr))"
    if pq: "primary_query dl h r mxMod lookupName nameServer rnd =
        Returns ((Some sqr, trace, StatusNoError, None), r', h')"
      and ch: "CacheHash mxMod = Some ch"
    for sqr trace r' h'
  proof -
    let ?ipMode = "GetIPVersionMode p (IPv4Lookup mxMod) (IPv6Lookup mxMod)"
    let ?mk = "\<lambda>n. (n, nameServer, basic_IsIterative (BasicLookupModule mxMod),
                     IPv4Lookup mxMod, IPv6Lookup mxMod)"
    let ?xs = "exchange_names (Answers sqr)"
    from lookup_answers_total [OF ch, of dt nameServer ?ipMode "Answers sqr" "[]" trace log]
    obtain servers trace' mxMod' log' where
      la: "lookup_answers dt nameServer ?ipMode (Answers sqr) ([], trace, mxMod, log) =
             Returns (servers, trace', mxMod', log')"
      by blast
    have L: "Lookup p dl dt h r mxMod log lookupName nameServer rnd =
        Returns ((Some \<lparr>Servers = servers\<rparr>, trace', StatusNoError, None), mxMod', log')"
      by (simp add: Lookup_primary_ok [OF pq] la)
    from lookup_answers_calls [OF la ch] obtain names where
      n: "log' = log @ map ?mk names"
         "names \<in> set (subseqs ?xs)"
         "\<forall>n \<in> set ?xs. fst (CacheHash_Get ch n) = None \<longrightarrow> n \<in> set names"
         "(\<forall>n \<in> set ?xs. fst (CacheHash_Get ch n) \<noteq> None) \<longrightarrow> names = []"
      by blast
    from lookup_answers_structure [OF la] obtain calls where
      cs: "log' = log @ calls"
          "trace' = trace @ concat (map trace_of (responses dt log calls))"
      by blast
    from cs(1) n(1) have "calls = map ?mk names" by simp
    with cs(2) have tr: "trace' = trace @ concat (map trace_of (responses dt log (map ?mk names)))"
      by simp
    have ex: "(\<forall>n \<in> set ?xs. fst (CacheHash_Get ch n) = None) \<and> distinct ?xs \<longrightarrow> names = ?xs"
    proof
      assume a: "(\<forall>n \<in> set ?xs. fst (CacheHash_Get ch n) = None) \<and> distinct ?xs"
      with n(3) have "set ?xs \<subseteq> set names" by blast
      with subseqs_all_distinct [OF n(2)] a show "names = ?xs" by blast
    qed
    show ?thesis
      using L [unfolded n(1)] tr n(2,3,4) ex by blast
  qed
  show ?thesis
    apply (intro conjI)
       apply (rule a)
      apply (intro impI)
      apply (erule conjE)
      apply (erule (1) b)
     apply (intro allI impI)
     apply (erule conjE)
     apply (erule (1) c)
    apply (intro allI impI)
    apply (erule conjE)
    apply (erule (1) d)
    done
qed

subsection \<open>Negative entries\<close>

text \<open>
  Two exchanges, the first cached from an earlier call: one cache hit without a call,
  one targeted call for the second, both addresses in the result, and the trace of the
  targeted call after the primary one.
\<close>

theorem cached_names_skip_lookup_and_traces_in_order_witness:
  "lookupIPs answering_dt warm_module [] ''mx1.example.com'' ''192.0.2.53:53'' 0 =
     Returns ((\<lparr>IPv4Addresses = [''192.0.2.10''], IPv6Addresses = []\<rparr>, []), warm_module, []) \<and>
   Lookup sample_pkg mx_lookuper answering_dt sample_heap_constructed sample_resolver warm_module []
     ''example.com'' ''192.0.2.53:53'' 0 =
   Returns
    ((Some \<lparr>Servers =
        [\<lparr>Name = ''mx1.example.com'', Type = ''MX'', Class = ''IN'', Preference = 10,
           mx_IPv4Addresses = [''192.0.2.10''], mx_IPv6Addresses = [], TTL = 300\<rparr>,
         \<lparr>Name = ''mx2.example.com'', Type = ''MX'', Class = ''IN'', Preference = 20,
           mx_IPv4Addresses = [''192.0.2.25''], mx_IPv6Addresses = [], TTL = 300\<rparr>]\<rparr>,
      [\<lparr>step_Depth = 1, step_NameServer = ''192.0.2.53:53'', step_Name = ''example.com''\<rparr>,
       \<lparr>step_Depth = 1, step_NameServer = ''192.0.2.53:53'', step_Name = ''mx2.example.com''\<rparr>],
      StatusNoError, None),
     ready_module\<lparr>CacheHash := Some \<lparr>maxLen = 2, entries =
        [(''mx2.example.com'', \<lparr>IPv4Addresses = [''192.0.2.25''], IPv6Addresses = []\<rparr>),
         (''mx1.example.com'', \<lparr>IPv4Addresses = [''192.0.2.10''], IPv6Addresses = []\<rparr>)]\<rparr>\<rparr>,
     [(''mx2.example.com'', ''192.0.2.53:53'', False, True, False)]) \<and>
   (\<exists>servers trace' mxMod' names.
      Lookup sample_pkg mx_lookuper answering_dt sample_heap_constructed sample_resolver
          warm_module [] ''example.com'' ''192.0.2.53:53'' 0 =
        Returns ((Some \<lparr>Servers = servers\<rparr>, trace', StatusNoError, None), mxMod',
                 map (\<lambda>n. (n, ''192.0.2.53:53'', False, True, False)) names) \<and>
      ''mx2.example.com'' \<in> set names)"
proof -
  let ?v = "\<lparr>IPv4Addresses = [''192.0.2.10''], IPv6Addresses = []\<rparr>"
  let ?ch = "\<lparr>maxLen = 2, entries = [(''mx1.example.com'', ?v)]\<rparr>"
  let ?sqr = "\<lparr>Answers = [mx_answer ''example.com'' ''mx1.example.com.'' 10,
                           mx_answer ''example.com'' ''mx2.example.com.'' 20],
              Additional = [], Authorities = [], Resolver = ''192.0.2.53:53''\<rparr>"
  let ?tr = "[\<lparr>step_Depth = 1, step_NameServer = ''192.0.2.53:53'', step_Name = ''example.com''\<rparr>]"
  note T = cached_names_skip_lookup_and_traces_in_order [of warm_module ?ch "''mx1.example.com''"
      answering_dt "[]" "''192.0.2.53:53''" 0 mx_lookuper sample_heap_constructed sample_resolver
      "''example.com''" 0 sample_pkg]
  have g: "CacheHash_Get ?ch ''mx1.example.com'' = (Some ?v, ?ch)"
    by (simp add: CacheHash_Get_def)
  have w: "CacheHash warm_module = Some ?ch"
    by (simp add: warm_module_def)
  have fl: "basic_IsIterative (BasicLookupModule warm_module) = False"
    "IPv4Lookup warm_module = True" "IPv6Lookup warm_module = False"
    by (simp_all add: warm_module_def ready_module_def)
  have h1: "CacheHash warm_module = Some ?ch \<and> fst (CacheHash_Get ?ch ''mx1.example.com'') = Some ?v"
    by (simp add: g w)
  from T [THEN conjunct1, rule_format, OF h1]
  have a: "lookupIPs answering_dt warm_module [] ''mx1.example.com'' ''192.0.2.53:53'' 0 =
     Returns ((?v, []), warm_module, [])"
    by (simp add: g) (simp add: warm_module_def)
  have h4: "primary_query mx_lookuper sample_heap_constructed sample_resolver warm_module
        ''example.com'' ''192.0.2.53:53'' 0 =
      Returns ((Some ?sqr, ?tr, StatusNoError, None), sample_resolver, sample_heap_constructed) \<and>
      CacheHash warm_module = Some ?ch"
    by (simp add: primary_query_sample fl w)
  have xs: "exchange_names [mx_answer ''example.com'' ''mx1.example.com.'' 10,
                            mx_answer ''example.com'' ''mx2.example.com.'' 20] =
      [''mx1.example.com'', ''mx2.example.com'']"
    by (simp add: exchange_names_def mx_answer_def TrimSuffix_mx)
  have m2: "fst (CacheHash_Get ?ch ''mx2.example.com'') = None"
    by (simp add: CacheHash_Get_def)
  from T [THEN conjunct2, THEN conjunct2, THEN conjunct2, rule_format, OF h4]
  obtain servers trace' mxMod' names where
    L: "Lookup sample_pkg mx_lookuper answering_dt sample_heap_constructed sample_resolver
          warm_module [] ''example.com'' ''192.0.2.53:53'' 0 =
        Returns ((Some \<lparr>Servers = servers\<rparr>, trace', StatusNoError, None), mxMod',
                 [] @ map (\<lambda>n. (n, ''192.0.2.53:53'', basic_IsIterative (BasicLookupModule warm_module),
                                   IPv4Lookup warm_module, IPv6Lookup warm_module)) names)"
    and lb: "\<forall>n \<in> set (exchange_names (Answers ?sqr)).
               fst (CacheHash_Get ?ch n) = None \<longrightarrow> n \<in> set names"
    by blast
  from lb m2 have "''mx2.example.com'' \<in> set names"
    by (simp add: xs)
  with L have c: "\<exists>servers trace' mxMod' names.
      Lookup sample_pkg mx_lookuper answering_dt sample_heap_constructed sample_resolver
          warm_module [] ''example.com'' ''192.0.2.53:53'' 0 =
        Returns ((Some \<lparr>Servers = servers\<rparr>, trace', StatusNoError, None), mxMod',
                 map (\<lambda>n. (n, ''192.0.2.53:53'', False, True, False)) names) \<and>
      ''mx2.example.com'' \<in> set names"
    unfolding fl by auto
  show ?thesis
    using a Lookup_warm c by blast
qed

text \<open>
  A module with room for one name: the lookup for the first exchange fails and is
  cached; the lookup for the second exchange evicts that entry; the next lookup for the
  first exchange is issued again and this time brings an address.
\<close>

theorem failed_lookup_attempted_again_after_eviction:
  "lookupIPs flaky_dt tiny_module [] ''mx1.example.com'' ''192.0.2.53:53'' 0 =
     Returns ((no_addresses,
               [\<lparr>step_Depth = 1, step_NameServer = ''192.0.2.53:53'',
                  step_Name = ''mx1.example.com''\<rparr>]),
              tiny_module\<lparr>CacheHash := Some \<lparr>maxLen = 1, entries =
                 [(''mx1.example.com'', no_addresses)]\<rparr>\<rparr>,
              [(''mx1.example.com'', ''192.0.2.53:53'', False, True, False)]) \<and>
   lookupIPs flaky_dt
       (tiny_module\<lparr>CacheHash := Some \<lparr>maxLen = 1, entries =
                 [(''mx1.example.com'', no_addresses)]\<rparr>\<rparr>)
       [(''mx1.example.com'', ''192.0.2.53:53'', False, True, False)]
       ''mx2.example.com'' ''192.0.2.53:53'' 0 =
     Returns ((no_addresses,
               [\<lparr>step_Depth = 1, step_NameServer = ''192.0.2.53:53'',
                  step_Name = ''mx2.example.com''\<rparr>]),
              tiny_module\<lparr>CacheHash := Some \<lparr>maxLen = 1, entries =
                 [(''mx2.example.com'', no_addresses)]\<rparr>\<rparr>,
              [(''mx1.example.com'', ''192.0.2.53:53'', False, True, False),
               (''mx2.example.com'', ''192.0.2.53:53'', False, True, False)]) \<and>
   lookupIPs flaky_dt
       (tiny_module\<lparr>CacheHash := Some \<lparr>maxLen = 1, entries =
                 [(''mx2.example.com'', no_addresses)]\<rparr>\<rparr>)
       [(''mx1.example.com'', ''192.0.2.53:53'', False, True, False),
        (''mx2.example.com'', ''192.0.2.53:53'', False, True, False)]
       ''mx1.example.com'' ''192.0.2.53:53'' 0 =
     Returns ((\<lparr>IPv4Addresses = [''192.0.2.25''], IPv6Addresses = []\<rparr>,
               [\<lparr>step_Depth = 1, step_NameServer = ''192.0.2.53:53'',
                  step_Name = ''mx1.example.com''\<rparr>]),
              tiny_module\<lparr>CacheHash := Some \<lparr>maxLen = 1, entries =
                 [(''mx1.example.com'', \<lparr>IPv4Addresses = [''192.0.2.25''], IPv6Addresses = []\<rparr>)]\<rparr>\<rparr>,
              [(''mx1.example.com'', ''192.0.2.53:53'', False, True, False),
               (''mx2.example.com'', ''192.0.2.53:53'', False, True, False),
               (''mx1.example.com'', ''192.0.2.53:53'', False, True, False)])"
  by (simp add: lookupIPs_def tiny_module_def ready_module_def CacheHash_Get_def
      CacheHash_Upsert_def flaky_dt_def timeout_dt_def answering_dt_def no_addresses_def Let_def)

text \<open>
  Claim C9, as the code has it. A targeted lookup that fails (non-success Status or nil
  result) puts the name into the module's cache with empty address sets, so the next
  \<open>lookupIPs\<close> for that name returns the empty addresses from the cache without a call,
  whatever the network would answer now; and so does every later one that finds the
  entry: the entry carries no expiry. The entry survives the lookup of another name
  that is itself cached or that finds the cache not full. The cache is bounded, though:
  the entry goes when a full cache evicts it. \<open>LookupIPs\<close> of the earlier module caches
  a failed lookup in the same way.
\<close>

theorem failed_lookup_is_cached:
  "(CacheHash mxMod = Some ch \<and> fst (CacheHash_Get ch name) = None \<and>
    failed (dt log (name, nameServer, basic_IsIterative (BasicLookupModule mxMod),
                    IPv4Lookup mxMod, IPv6Lookup mxMod)) \<longrightarrow>
      (\<exists>mxMod1 ch1 mxMod2.
         lookupIPs dt mxMod log name nameServer ipMode =
           Returns ((no_addresses,
                     trace_of (dt log (name, nameServer, basic_IsIterative (BasicLookupModule mxMod),
                                       IPv4Lookup mxMod, IPv6Lookup mxMod))),
                    mxMod1,
                    log @ [(name, nameServer, basic_IsIterative (BasicLookupModule mxMod),
                            IPv4Lookup mxMod, IPv6Lookup mxMod)]) \<and>
         CacheHash mxMod1 = Some ch1 \<and>
         fst (CacheHash_Get ch1 name) = Some no_addresses \<and>
         lookupIPs dt' mxMod1 log' name nameServer' ipMode' =
           Returns ((no_addresses, []), mxMod2, log'))) \<and>
   (CacheHash mxMod = Some ch \<and> fst (CacheHash_Get ch name) = Some no_addresses \<longrightarrow>
      lookupIPs dt mxMod log name nameServer ipMode =
        Returns ((no_addresses, []), mxMod\<lparr>CacheHash := Some (snd (CacheHash_Get ch name))\<rparr>, log)) \<and>
   (\<forall>v other x mxMod1 log1.
      CacheHash mxMod = Some ch \<and> fst (CacheHash_Get ch name) = Some v \<and> other \<noteq> name \<and>
      (fst (CacheHash_Get ch other) \<noteq> None \<or> int (length (entries ch)) < maxLen ch) \<and>
      lookupIPs dt mxMod log other nameServer ipMode = Returns (x, mxMod1, log1) \<longrightarrow>
      (\<exists>ch1. CacheHash mxMod1 = Some ch1 \<and> fst (CacheHash_Get ch1 name) = Some v)) \<and>
   (CacheHash mx = Some ch0 \<and> fst (CacheHash_Get ch0 name) = None \<and>
    failed (dt0 log0 (name, nameServer, lookupIpv4, lookupIpv6)) \<longrightarrow>
      (\<exists>mx1 mx2.
         LookupIPs dt0 (Some mx) log0 name nameServer lookupIpv4 lookupIpv6 =
           Returns ((no_addresses, trace_of (dt0 log0 (name, nameServer, lookupIpv4, lookupIpv6))),
                    Some mx1, log0 @ [(name, nameServer, lookupIpv4, lookupIpv6)]) \<and>
         LookupIPs dt0' (Some mx1) log0' name nameServer' lookupIpv4' lookupIpv6' =
           Returns ((no_addresses, []), mx2, log0')))"
proof -
  let ?call = "(name, nameServer, basic_IsIterative (BasicLookupModule mxMod),
                IPv4Lookup mxMod, IPv6Lookup mxMod)"
  have a: "\<exists>mxMod1 ch1 mxMod2.
         lookupIPs dt mxMod log name nameServer ipMode =
           Returns ((no_addresses, trace_of (dt log ?call)), mxMod1, log @ [?call]) \<and>
         CacheHash mxMod1 = Some ch1 \<and>
         fst (CacheHash_Get ch1 name) = Some no_addresses \<and>
         lookupIPs dt' mxMod1 log' name nameServer' ipMode' =
           Returns ((no_addresses, []), mxMod2, log')"
    if c: "CacheHash mxMod = Some ch" and m: "fst (CacheHash_Get ch name) = None"
      and f: "failed (dt log ?call)"
  proof -
    let ?ch1 = "CacheHash_Upsert ch name no_addresses"
    let ?m1 = "mxMod\<lparr>CacheHash := Some ?ch1\<rparr>"
    have l: "lookupIPs dt mxMod log name nameServer ipMode =
           Returns ((no_addresses, trace_of (dt log ?call)), ?m1, log @ [?call])"
      using lookupIPs_miss_failed [where dt = dt and log = log, OF c m refl f, of ipMode]
      by (simp add: no_addresses_def)
    have c1: "CacheHash ?m1 = Some ?ch1" by simp
    have g: "fst (CacheHash_Get ?ch1 name) = Some no_addresses"
      by (simp add: Get_Upsert)
    from lookupIPs_hit [OF c1 g, of dt' log' nameServer' ipMode'] l c1 g
    show ?thesis by blast
  qed
  have b: "CacheHash mxMod = Some ch \<and> fst (CacheHash_Get ch name) = Some no_addresses \<longrightarrow>
      lookupIPs dt mxMod log name nameServer ipMode =
        Returns ((no_addresses, []), mxMod\<lparr>CacheHash := Some (snd (CacheHash_Get ch name))\<rparr>, log)"
    by (simp add: lookupIPs_hit)
  have k: "\<exists>ch1. CacheHash mxMod1 = Some ch1 \<and> fst (CacheHash_Get ch1 name) = Some v"
    if c: "CacheHash mxMod = Some ch" and g: "fst (CacheHash_Get ch name) = Some v"
      and o: "other \<noteq> name"
      and room: "fst (CacheHash_Get ch other) \<noteq> None \<or> int (length (entries ch)) < maxLen ch"
      and l: "lookupIPs dt mxMod log other nameServer ipMode = Returns (x, mxMod1, log1)"
    for v other x mxMod1 log1
  proof -
    obtain ips tr where x: "x = (ips, tr)" by (cases x) auto
    from lookupIPs_Returns [OF l [unfolded x]] c
    consider
      (hit) "mxMod1 = mxMod\<lparr>CacheHash := Some (snd (CacheHash_Get ch other))\<rparr>"
    | (miss) "fst (CacheHash_Get ch other) = None"
        "mxMod1 = mxMod\<lparr>CacheHash := Some (CacheHash_Upsert ch other ips)\<rparr>"
      by auto
    then show ?thesis
    proof cases
      case hit
      then show ?thesis using g o by (simp add: Get_keeps_other)
    next
      case miss
      with room have "int (length (entries ch)) < maxLen ch" by simp
      then show ?thesis using miss g o by (simp add: Upsert_keeps_other)
    qed
  qed
  have o: "\<exists>mx1 mx2.
         LookupIPs dt0 (Some mx) log0 name nameServer lookupIpv4 lookupIpv6 =
           Returns ((no_addresses, trace_of (dt0 log0 (name, nameServer, lookupIpv4, lookupIpv6))),
                    Some mx1, log0 @ [(name, nameServer, lookupIpv4, lookupIpv6)]) \<and>
         LookupIPs dt0' (Some mx1) log0' name nameServer' lookupIpv4' lookupIpv6' =
           Returns ((no_addresses, []), mx2, log0')"
    if c: "CacheHash mx = Some ch0" and m: "fst (CacheHash_Get ch0 name) = None"
      and f: "failed (dt0 log0 (name, nameServer, lookupIpv4, lookupIpv6))"
  proof -
    let ?ch1 = "CacheHash_Add ch0 name no_addresses"
    let ?m1 = "mx\<lparr>CacheHash := Some ?ch1\<rparr>"
    have l: "LookupIPs dt0 (Some mx) log0 name nameServer lookupIpv4 lookupIpv6 =
           Returns ((no_addresses, trace_of (dt0 log0 (name, nameServer, lookupIpv4, lookupIpv6))),
                    Some ?m1, log0 @ [(name, nameServer, lookupIpv4, lookupIpv6)])"
      using LookupIPs_miss_failed [where dt = dt0 and log = log0, OF c m f]
      by (simp add: no_addresses_def)
    have c1: "CacheHash ?m1 = Some ?ch1" by simp
    have g: "fst (CacheHash_Get ?ch1 name) = Some no_addresses"
      by (simp add: CacheHash_Add_def Get_Upsert)
    from LookupIPs_hit [OF c1 g, of dt0' log0' nameServer' lookupIpv4' lookupIpv6'] l
    show ?thesis by blast
  qed
  show ?thesis
    apply (intro conjI)
       apply (intro impI)
       apply (elim conjE)
       apply (erule (2) a)
      apply (rule b)
     apply (intro allI impI)
     apply (elim conjE)
     apply (erule (4) k)
    apply (intro impI)
    apply (elim conjE)
    apply (erule (2) o)
    done
qed

text \<open>After the failed lookup for the first exchange, the name is answered from the cache although the network would answer now.\<close>

theorem failed_lookup_is_cached_witness:
  "lookupIPs timeout_dt ready_module [] ''mx1.example.com'' ''192.0.2.53:53'' 0 =
     Returns ((no_addresses,
               [\<lparr>step_Depth = 1, step_NameServer = ''192.0.2.53:53'',
                  step_Name = ''mx1.example.com''\<rparr>]),
              ready_module\<lparr>CacheHash := Some \<lparr>maxLen = 2, entries =
                 [(''mx1.example.com'', no_addresses)]\<rparr>\<rparr>,
              [(''mx1.example.com'', ''192.0.2.53:53'', False, True, False)]) \<and>
   lookupIPs answering_dt
       (ready_module\<lparr>CacheHash := Some \<lparr>maxLen = 2, entries =
                 [(''mx1.example.com'', no_addresses)]\<rparr>\<rparr>)
       [(''mx1.example.com'', ''192.0.2.53:53'', False, True, False)]
       ''mx1.example.com'' ''192.0.2.53:53'' 0 =
     Returns ((no_addresses, []),
              ready_module\<lparr>CacheHash := Some \<lparr>maxLen = 2, entries =
                 [(''mx1.example.com'', no_addresses)]\<rparr>\<rparr>,
              [(''mx1.example.com'', ''192.0.2.53:53'', False, True, False)])"
proof -
  let ?ch = "\<lparr>maxLen = 2, entries = [(''mx1.example.com'', no_addresses)]\<rparr>"
  let ?m = "ready_module\<lparr>CacheHash := Some ?ch\<rparr>"
  let ?log = "[(''mx1.example.com'', ''192.0.2.53:53'', False, True, False)]"
  note T = failed_lookup_is_cached [of ?m ?ch "''mx1.example.com''" answering_dt ?log
      "''192.0.2.53:53''" 0 answering_dt ?log "''192.0.2.53:53''" 0]
  have g: "CacheHash_Get ?ch ''mx1.example.com'' = (Some no_addresses, ?ch)"
    by (simp add: CacheHash_Get_def)
  have h: "CacheHash ?m = Some ?ch \<and> fst (CacheHash_Get ?ch ''mx1.example.com'') = Some no_addresses"
    by (simp add: g)
  from T [THEN conjunct2, THEN conjunct1, rule_format, OF h]
  have b: "lookupIPs answering_dt ?m ?log ''mx1.example.com'' ''192.0.2.53:53'' 0 =
     Returns ((no_addresses, []), ?m, ?log)"
    by (simp add: g)
  have a: "lookupIPs timeout_dt ready_module [] ''mx1.example.com'' ''192.0.2.53:53'' 0 =
     Returns ((no_addresses,
               [\<lparr>step_Depth = 1, step_NameServer = ''192.0.2.53:53'',
                  step_Name = ''mx1.example.com''\<rparr>]), ?m, ?log)"
    by (simp add: lookupIPs_def ready_module_def CacheHash_Get_def CacheHash_Upsert_def
        timeout_dt_def no_addresses_def Let_def)
  show ?thesis using a b by simp
qed

subsection \<open>Init and CLIInit\<close>

lemma Init_Returns:
  "(IPv4Lookup mxMod \<or> IPv6Lookup mxMod) \<Longrightarrow> 0 < MXCacheSize mxMod \<Longrightarrow>
     Init mxMod = Returns (mxMod\<lparr>CacheHash := Some (CacheHash_Init (MXCacheSize mxMod))\<rparr>)"
  by (auto simp: Init_def)

lemma CLIInit_eq:
  "CLIInit b mxMod =
     (if MXCacheSize mxMod \<le> 0 then Fatal ''mxCacheSize must be greater than 0, got ''
      else Returns
        (map_option (\<lambda>err. ''failed to initialize BasicLookupModule: '' @ err)
           (fst (b (BasicLookupModule mxMod))),
         mxMod\<lparr>IPv4Lookup := IPv4Lookup mxMod \<or> \<not> IPv6Lookup mxMod,
               CacheHash := Some (CacheHash_Init (MXCacheSize mxMod)),
               BasicLookupModule := snd (b (BasicLookupModule mxMod))\<rparr>))"
  by (cases "b (BasicLookupModule mxMod)"; cases "fst (b (BasicLookupModule mxMod))")
     (auto simp: CLIInit_def Init_def Let_def)

text \<open>
  Claim C10. \<open>Init\<close> ends in \<open>log.Fatal\<close> exactly when neither \<open>IPv4Lookup\<close> nor \<open>IPv6Lookup\<close>
  is set or \<open>MXCacheSize\<close> is not strictly positive, and otherwise installs an empty cache
  of that size. \<open>CLIInit\<close> never ends in the at-least-one-flag fatal: it is fatal exactly
  when \<open>MXCacheSize\<close> is not positive. A module that \<open>CLIInit\<close> returns for a module with
  neither flag set has \<open>IPv4Lookup\<close> set and \<open>IPv6Lookup\<close> clear, and its targeted lookups
  ask for IPv4 addresses.
\<close>

theorem Init_fatal_and_CLIInit_default:
  "((\<exists>msg. Init mxMod = Fatal msg) \<longleftrightarrow>
      (\<not> IPv4Lookup mxMod \<and> \<not> IPv6Lookup mxMod) \<or> MXCacheSize mxMod \<le> 0) \<and>
   ((IPv4Lookup mxMod \<or> IPv6Lookup mxMod) \<and> 0 < MXCacheSize mxMod \<longrightarrow>
      Init mxMod = Returns (mxMod\<lparr>CacheHash := Some (CacheHash_Init (MXCacheSize mxMod))\<rparr>)) \<and>
   CLIInit b mxMod \<noteq> Fatal ''At least one of ipv4-lookup or ipv6-lookup must be true'' \<and>
   ((\<exists>msg. CLIInit b mxMod = Fatal msg) \<longleftrightarrow> MXCacheSize mxMod \<le> 0) \<and>
   (\<forall>err mxMod1. CLIInit b mxMod = Returns (err, mxMod1) \<and>
        \<not> IPv4Lookup mxMod \<and> \<not> IPv6Lookup mxMod \<longrightarrow>
      IPv4Lookup mxMod1 \<and> \<not> IPv6Lookup mxMod1 \<and>
      (\<exists>x mxMod2.
         lookupIPs dt mxMod1 log name nameServer ipMode =
           Returns (x, mxMod2,
                    log @ [(name, nameServer, basic_IsIterative (BasicLookupModule mxMod1),
                            True, False)])))"
proof -
  have a: "(\<exists>msg. Init mxMod = Fatal msg) \<longleftrightarrow>
      (\<not> IPv4Lookup mxMod \<and> \<not> IPv6Lookup mxMod) \<or> MXCacheSize mxMod \<le> 0"
    by (auto simp: Init_def)
  have b: "(IPv4Lookup mxMod \<or> IPv6Lookup mxMod) \<and> 0 < MXCacheSize mxMod \<longrightarrow>
      Init mxMod = Returns (mxMod\<lparr>CacheHash := Some (CacheHash_Init (MXCacheSize mxMod))\<rparr>)"
    by (auto simp: Init_def)
  have c: "CLIInit b mxMod \<noteq> Fatal ''At least one of ipv4-lookup or ipv6-lookup must be true''"
    by (simp add: CLIInit_eq)
  have d: "(\<exists>msg. CLIInit b mxMod = Fatal msg) \<longleftrightarrow> MXCacheSize mxMod \<le> 0"
    by (simp add: CLIInit_eq)
  have e: "IPv4Lookup mxMod1 \<and> \<not> IPv6Lookup mxMod1 \<and>
      (\<exists>x mxMod2.
         lookupIPs dt mxMod1 log name nameServer ipMode =
           Returns (x, mxMod2,
                    log @ [(name, nameServer, basic_IsIterative (BasicLookupModule mxMod1),
                            True, False)]))"
    if r: "CLIInit b mxMod = Returns (err, mxMod1)"
      and n4: "\<not> IPv4Lookup mxMod" and n6: "\<not> IPv6Lookup mxMod" for err mxMod1
  proof -
    from r have m1: "mxMod1 = mxMod\<lparr>IPv4Lookup := IPv4Lookup mxMod \<or> \<not> IPv6Lookup mxMod,
               CacheHash := Some (CacheHash_Init (MXCacheSize mxMod)),
               BasicLookupModule := snd (b (BasicLookupModule mxMod))\<rparr>"
      by (simp add: CLIInit_eq split: if_splits)
    have f: "IPv4Lookup mxMod1" "\<not> IPv6Lookup mxMod1"
      "CacheHash mxMod1 = Some (CacheHash_Init (MXCacheSize mxMod))"
      using n4 n6 by (simp_all add: m1)
    have g: "fst (CacheHash_Get (CacheHash_Init (MXCacheSize mxMod)) name) = None"
      by (simp add: CacheHash_Get_def CacheHash_Init_def)
    let ?call = "(name, nameServer, basic_IsIterative (BasicLookupModule mxMod1),
                  IPv4Lookup mxMod1, IPv6Lookup mxMod1)"
    obtain result trace status er where dd: "dt log ?call = (result, trace, status, er)"
      by (cases "dt log ?call") auto
    from lookupIPs_miss [where dt = dt and log = log, OF f(3) g dd, of ipMode] f(1,2)
    show ?thesis by simp
  qed
  show ?thesis
    apply (intro conjI)
        apply (rule a)
       apply (rule b)
      apply (rule c)
     apply (rule d)
    apply (intro allI impI)
    apply (elim conjE)
    apply (erule (2) e)
    done
qed

text \<open>The module with neither flag set, as the command line leaves it, after \<open>CLIInit\<close>.\<close>

theorem Init_fatal_and_CLIInit_default_witness:
  "Init flags_unset_module = Fatal ''At least one of ipv4-lookup or ipv6-lookup must be true'' \<and>
   CLIInit plain_basic_CLIInit flags_unset_module = Returns (None, ready_module) \<and>
   IPv4Lookup ready_module \<and>
   lookupIPs answering_dt ready_module [] ''mx1.example.com'' ''192.0.2.53:53'' 0 =
     Returns ((\<lparr>IPv4Addresses = [''192.0.2.25''], IPv6Addresses = []\<rparr>,
               [\<lparr>step_Depth = 1, step_NameServer = ''192.0.2.53:53'',
                  step_Name = ''mx1.example.com''\<rparr>]),
              ready_module\<lparr>CacheHash := Some \<lparr>maxLen = 2, entries =
                 [(''mx1.example.com'', \<lparr>IPv4Addresses = [''192.0.2.25''], IPv6Addresses = []\<rparr>)]\<rparr>\<rparr>,
              [(''mx1.example.com'', ''192.0.2.53:53'', False, True, False)])"
proof -
  note T = Init_fatal_and_CLIInit_default [of flags_unset_module plain_basic_CLIInit answering_dt "[]"
      "''mx1.example.com''" "''192.0.2.53:53''" 0]
  have c: "CLIInit plain_basic_CLIInit flags_unset_module = Returns (None, ready_module)"
    by (simp add: CLIInit_def Init_def flags_unset_module_def plain_basic_CLIInit_def
        ready_module_def CacheHash_Init_def)
  have h: "CLIInit plain_basic_CLIInit flags_unset_module = Returns (None, ready_module) \<and>
      \<not> IPv4Lookup flags_unset_module \<and> \<not> IPv6Lookup flags_unset_module"
    by (simp add: c) (simp add: flags_unset_module_def)
  from T [THEN conjunct2, THEN conjunct2, THEN conjunct2, THEN conjunct2, rule_format, OF h]
  have v4: "IPv4Lookup ready_module" by blast
  have i: "Init flags_unset_module = Fatal ''At least one of ipv4-lookup or ipv6-lookup must be true''"
    by (simp add: Init_def flags_unset_module_def)
  have l: "lookupIPs answering_dt ready_module [] ''mx1.example.com'' ''192.0.2.53:53'' 0 =
     Returns ((\<lparr>IPv4Addresses = [''192.0.2.25''], IPv6Addresses = []\<rparr>,
               [\<lparr>step_Depth = 1, step_NameServer = ''192.0.2.53:53'',
                  step_Name = ''mx1.example.com''\<rparr>]),
              ready_module\<lparr>CacheHash := Some \<lparr>maxLen = 2, entries =
                 [(''mx1.example.com'', \<lparr>IPv4Addresses = [''192.0.2.25''], IPv6Addresses = []\<rparr>)]\<rparr>\<rparr>,
              [(''mx1.example.com'', ''192.0.2.53:53'', False, True, False)])"
    by (simp add: lookupIPs_def ready_module_def CacheHash_Get_def CacheHash_Upsert_def
        answering_dt_def Let_def)
  show ?thesis using i c v4 l by simp
qed

end
